theory Spec2Isabelle
  imports Main
begin

section \<open>Python values used by process_manifest.py\<close>

text \<open>
  Byte strings and text strings are both lists of characters. Exceptions are values:
  every function that can raise returns \<open>py_error + 'a\<close>, with \<open>Inl\<close> the exception.
  \<open>LibraryError\<close> stands for any exception raised inside urllib, ftplib or boto.
\<close>

type_synonym bytes = string

datatype py_error =
    TypeError | IndexError | ValueError | AttributeError | ZeroDivisionError
  | FileNotFoundError | IsADirectoryError | LibraryError

subsection \<open>String methods\<close>

definition lower_char :: "char \<Rightarrow> char" where
  "lower_char c =
     (case map_of (zip ''ABCDEFGHIJKLMNOPQRSTUVWXYZ'' ''abcdefghijklmnopqrstuvwxyz'') c of
        None \<Rightarrow> c | Some d \<Rightarrow> d)"

definition upper_char :: "char \<Rightarrow> char" where
  "upper_char c =
     (case map_of (zip ''abcdefghijklmnopqrstuvwxyz'' ''ABCDEFGHIJKLMNOPQRSTUVWXYZ'') c of
        None \<Rightarrow> c | Some d \<Rightarrow> d)"

text \<open>\<open>s.lower()\<close> and \<open>s.upper()\<close>, on ASCII letters.\<close>

definition lower :: "string \<Rightarrow> string" where
  "lower s = map lower_char s"

definition upper :: "string \<Rightarrow> string" where
  "upper s = map upper_char s"

text \<open>\<open>s.startswith(p)\<close>.\<close>

definition startswith :: "string \<Rightarrow> string \<Rightarrow> bool" where
  "startswith s p = (take (length p) s = p)"

text \<open>\<open>sub in s\<close> for strings.\<close>

fun contains :: "string \<Rightarrow> string \<Rightarrow> bool" where
  "contains sub [] = (sub = [])"
| "contains sub (c # cs) = (startswith (c # cs) sub \<or> contains sub cs)"

text \<open>
  \<open>s.split(sep)\<close> for a non-empty separator: the pieces between the non-overlapping
  occurrences of \<open>sep\<close>, scanned from the left. \<open>k\<close> counts the characters of a matched
  separator that are still to be skipped, \<open>cur\<close> is the piece being read, reversed.
\<close>

fun split_go :: "string \<Rightarrow> nat \<Rightarrow> string \<Rightarrow> string \<Rightarrow> string list" where
  "split_go sep k cur [] = [rev cur]"
| "split_go sep k cur (c # cs) =
     (if 0 < k then split_go sep (k - 1) cur cs
      else if startswith (c # cs) sep then rev cur # split_go sep (length sep - 1) [] cs
      else split_go sep 0 (c # cur) cs)"

text \<open>\<open>s.split(sep)\<close>; an empty separator raises ValueError.\<close>

definition split :: "string \<Rightarrow> string \<Rightarrow> py_error + string list" where
  "split sep s = (if sep = [] then Inl ValueError else Inr (split_go sep 0 [] s))"

text \<open>\<open>s.split(c)\<close> for a separator that is one character: it never raises.\<close>

definition split_char :: "char \<Rightarrow> string \<Rightarrow> string list" where
  "split_char c s = split_go [c] 0 [] s"

text \<open>\<open>s.split(c, 1)\<close>: at most one split, at the first occurrence of \<open>c\<close>.\<close>

definition split1 :: "char \<Rightarrow> string \<Rightarrow> string list" where
  "split1 c s =
     (case dropWhile (\<lambda>x. x \<noteq> c) s of
        [] \<Rightarrow> [s]
      | _ # rest \<Rightarrow> [takeWhile (\<lambda>x. x \<noteq> c) s, rest])"

text \<open>\<open>s.lstrip(chars)\<close>: drops every leading character that occurs in \<open>chars\<close>.\<close>

definition lstrip :: "string \<Rightarrow> string \<Rightarrow> string" where
  "lstrip chars s = dropWhile (\<lambda>x. x \<in> set chars) s"

text \<open>\<open>sep.join(xs)\<close>.\<close>

fun join :: "string \<Rightarrow> string list \<Rightarrow> string" where
  "join sep [] = []"
| "join sep [x] = x"
| "join sep (x # y # xs) = x @ sep @ join sep (y # xs)"

text \<open>\<open>xs[i]\<close> for \<open>i \<ge> 0\<close>: IndexError out of range.\<close>

definition index :: "'a list \<Rightarrow> nat \<Rightarrow> py_error + 'a" where
  "index xs i = (if i < length xs then Inr (xs ! i) else Inl IndexError)"

section \<open>Endpoint selection\<close>

text \<open>
  Lines 321-323 of get_prioritized_endpoint: the rewrite of the demo data's S3 URLs.
  \<open>elements[2]\<close> and \<open>elements[4]\<close> raise IndexError on a URL with fewer than five
  pieces; \<open>elements[-4:]\<close> is the last four pieces.
\<close>

definition demo_rewrite :: "string \<Rightarrow> py_error + string" where
  "demo_rewrite url =
     (if contains ''s3://'' url \<and> contains ''HMDEMO'' url then
        (let elements = split_char CHR ''/'' url in
         case index elements 2 of Inl e \<Rightarrow> Inl e | Inr e2 \<Rightarrow>
         case index elements 4 of Inl e \<Rightarrow> Inl e | Inr e4 \<Rightarrow>
           Inr (''s3://'' @ e2 @ ''/DEMO/'' @ e4 @ ''/''
                  @ join ''/'' (drop (length elements - 4) elements)))
      else Inr url)"

text \<open>The inner loop \<open>for url in urls\<close> (lines 316-325), appending to \<open>url_list\<close>.\<close>

fun url_loop :: "string \<Rightarrow> string list \<Rightarrow> string list \<Rightarrow> py_error + string list" where
  "url_loop ep [] url_list = Inr url_list"
| "url_loop ep (url # urls) url_list =
     (if startswith url (lower ep) then
        (case demo_rewrite url of
           Inl e \<Rightarrow> Inl e
         | Inr url' \<Rightarrow> url_loop ep urls (url_list @ [url']))
      else url_loop ep urls url_list)"

text \<open>The outer loop \<open>for ep in eps\<close> (line 315).\<close>

fun ep_loop :: "string list \<Rightarrow> string list \<Rightarrow> string list \<Rightarrow> py_error + string list" where
  "ep_loop [] urls url_list = Inr url_list"
| "ep_loop (ep # eps) urls url_list =
     (case url_loop ep urls url_list of
        Inl e \<Rightarrow> Inl e
      | Inr url_list' \<Rightarrow> ep_loop eps urls url_list')"

text \<open>
  Lines 300-312: the priority tokens in effect. \<open>on_ec2\<close> is the outcome of
  \<open>len(get_instance_metadata(timeout=0.5, num_retries=1).keys()) > 0\<close>, a probe of the
  machine the client runs on.
\<close>

definition effective_priorities :: "bool \<Rightarrow> string \<Rightarrow> string list" where
  "effective_priorities on_ec2 priorities =
     (let eps = split_char CHR '','' priorities in
      if (case eps of [] \<Rightarrow> False | e0 # _ \<Rightarrow> e0 = '''') then
        (if on_ec2 then [''S3'', ''HTTP'', ''FTP''] else [''HTTP'', ''FTP'', ''S3''])
      else eps)"

definition get_prioritized_endpoint :: "bool \<Rightarrow> string \<Rightarrow> string \<Rightarrow> py_error + string list" where
  "get_prioritized_endpoint on_ec2 manifest_urls priorities =
     (let urls = split_char CHR '','' manifest_urls;
          eps = effective_priorities on_ec2 priorities
      in ep_loop eps urls [])"

section \<open>S3 URLs\<close>

text \<open>
  The first three lines of s3_get_key (lines 284-286): the bucket and the key of an S3
  URL. \<open>url.split('/', 1)[1]\<close> raises IndexError when the stripped URL has no slash.
\<close>

definition s3_parse_url :: "string \<Rightarrow> py_error + (string \<times> string)" where
  "s3_parse_url url0 =
     (let url = lstrip ''s3://'' url0 in
      case index (split1 CHR ''/'' url) 0 of Inl e \<Rightarrow> Inl e | Inr bucket \<Rightarrow>
      case index (split1 CHR ''/'' url) 1 of Inl e \<Rightarrow> Inl e | Inr key \<Rightarrow>
        Inr (bucket, key))"

section \<open>The world the client runs in\<close>

text \<open>
  A request header \<open>{'Range': 'bytes=a-'}\<close> is \<open>Range a None\<close>, and
  \<open>{'Range': 'bytes=a-b'}\<close> is \<open>Range a (Some b)\<close>: the numbers are kept, not their
  decimal text.
\<close>

datatype range_hdr = Range nat "int option"

text \<open>The calls to the transport libraries and to the file system, in the order made.\<close>

datatype event =
    Urlopen string "range_hdr option"
  | ResponseRead nat
  | FtpLogin string
  | FtpMlsd string string
  | FtpSize string string
  | FtpRetrbinary string string nat nat
  | S3GetBucket string
  | S3GetKey string string
  | S3GetContents string string range_hdr
  | OpenAppend string
  | FileWrite string bytes
  | Move string string

text \<open>
  The mutable state: the regular files on disk with their content, the paths that name
  a directory with the size \<open>os.path.getsize\<close> reports for each (a path is written as
  the code writes it, so a directory \<open>dest\<close> is also named by \<open>dest/\<close>; no path is both
  a file and a directory), the module's connection caches \<open>FTP_CONNS\<close> (its keys) and
  \<open>S3_CONNS\<close> (whether it holds \<open>'S3'\<close>), and the calls made so far. The destination
  directory is taken to be writable. What is printed is not part of the state.
\<close>

record world =
  files :: "string \<rightharpoonup> bytes"
  dirs :: "string \<rightharpoonup> nat"
  ftp_conns :: "string list"
  s3_conn :: bool
  calls :: "event list"

text \<open>
  The libraries the module calls, as functions of their arguments: the remote side does
  not change during a run.
  \<^item> \<open>on_ec2\<close>: \<open>len(get_instance_metadata(timeout=0.5, num_retries=1).keys()) > 0\<close>;
  \<^item> \<open>urlopen url hdr\<close>: \<open>urllib.request.urlopen\<close> of a request for \<open>url\<close> with the
    headers \<open>hdr\<close>: \<open>None\<close> when it raises, else the body of the response;
  \<^item> \<open>content_length url\<close>: the \<open>Content-Length\<close> header of the response to a request
    without headers, \<open>None\<close> when the response has none;
  \<^item> \<open>ftp_login host\<close>: whether \<open>FTP(host)\<close> and \<open>login\<close> succeed;
  \<^item> \<open>ftp_mlsd host path\<close>: whether \<open>list(ftp.mlsd(path))\<close> is non-empty, or the exception;
  \<^item> \<open>ftp_size host path\<close>: \<open>ftp.size(path)\<close>, an integer or \<open>None\<close>, or the exception;
  \<^item> \<open>ftp_retrbinary host path blocksize rest\<close>: the pieces that
    \<open>ftp.retrbinary('RETR ' + path, callback, blocksize, rest)\<close> hands to the callback;
  \<^item> \<open>s3_get_bucket bucket\<close>: whether \<open>get_bucket\<close> returns (it raises otherwise);
  \<^item> \<open>s3_key_size bucket key\<close>: \<open>None\<close> when \<open>get_key\<close> returns \<open>None\<close>, else the
    \<open>size\<close> of the key;
  \<^item> \<open>s3_get_contents bucket key hdr\<close>: \<open>get_contents_as_string(headers=hdr)\<close>;
  \<^item> \<open>md5_hexdigest bs\<close>: \<open>hexdigest()\<close> of a hashlib MD5 object fed the bytes \<open>bs\<close>.
\<close>

record env =
  on_ec2 :: bool
  urlopen :: "string \<Rightarrow> range_hdr option \<Rightarrow> bytes option"
  content_length :: "string \<Rightarrow> nat option"
  ftp_login :: "string \<Rightarrow> bool"
  ftp_mlsd :: "string \<Rightarrow> string \<Rightarrow> py_error + bool"
  ftp_size :: "string \<Rightarrow> string \<Rightarrow> py_error + nat option"
  ftp_retrbinary :: "string \<Rightarrow> string \<Rightarrow> nat \<Rightarrow> nat \<Rightarrow> py_error + bytes list"
  s3_get_bucket :: "string \<Rightarrow> bool"
  s3_key_size :: "string \<Rightarrow> string \<Rightarrow> nat option"
  s3_get_contents :: "string \<Rightarrow> string \<Rightarrow> range_hdr \<Rightarrow> py_error + bytes"
  md5_hexdigest :: "bytes \<Rightarrow> string"

definition log_call :: "event \<Rightarrow> world \<Rightarrow> world" where
  "log_call ev w = w\<lparr>calls := calls w @ [ev]\<rparr>"

text \<open>The content of a file, empty when there is none.\<close>

definition content_of :: "world \<Rightarrow> string \<Rightarrow> bytes" where
  "content_of w p = (case files w p of None \<Rightarrow> [] | Some c \<Rightarrow> c)"

text \<open>\<open>os.path.exists(p)\<close>: true of a regular file and of a directory.\<close>

definition path_exists :: "world \<Rightarrow> string \<Rightarrow> bool" where
  "path_exists w p = (files w p \<noteq> None \<or> dirs w p \<noteq> None)"

text \<open>\<open>os.path.getsize(p)\<close> of a path that exists.\<close>

definition getsize :: "world \<Rightarrow> string \<Rightarrow> nat" where
  "getsize w p =
     (case files w p of
        Some c \<Rightarrow> length c
      | None \<Rightarrow> (case dirs w p of Some n \<Rightarrow> n | None \<Rightarrow> 0))"

text \<open>The world after \<open>open(p, 'ab')\<close> returned: the file is there, created empty if it was not.\<close>

definition open_append :: "string \<Rightarrow> world \<Rightarrow> world" where
  "open_append p w = log_call (OpenAppend p) (w\<lparr>files := (files w)(p \<mapsto> content_of w p)\<rparr>)"

text \<open>\<open>open(p, 'ab')\<close>: it raises on a directory.\<close>

definition open_ab :: "string \<Rightarrow> world \<Rightarrow> py_error + world" where
  "open_ab p w =
     (if files w p = None \<and> dirs w p \<noteq> None then Inl IsADirectoryError
      else Inr (open_append p w))"

text \<open>\<open>file.write(data)\<close> on a file opened in append mode.\<close>

definition file_write :: "string \<Rightarrow> bytes \<Rightarrow> world \<Rightarrow> world" where
  "file_write p data w =
     log_call (FileWrite p data) (w\<lparr>files := (files w)(p \<mapsto> content_of w p @ data)\<rparr>)"

text \<open>\<open>shutil.move(src, dst)\<close> of a regular file to a path that does not exist.\<close>

definition move :: "string \<Rightarrow> string \<Rightarrow> world \<Rightarrow> py_error + world" where
  "move src dst w =
     (case files w src of
        None \<Rightarrow> Inl FileNotFoundError
      | Some c \<Rightarrow> Inr (log_call (Move src dst) (w\<lparr>files := (files w)(dst \<mapsto> c, src := None)\<rparr>)))"

section \<open>Transports\<close>

text \<open>
  What \<open>res\<close> can hold: a string (\<open>""\<close> or \<open>"error"\<close>), an HTTP response with the part
  of its body that is still unread, the closure \<open>get_data\<close> over an FTP host and path, or
  an S3 key with its bucket, name and size.
\<close>

datatype netobj =
    Str string
  | HTTPResponse bytes
  | FtpGetData string string
  | S3Key string string nat

text \<open>parse_ftp_url (lines 40-45): \<open>(dest, host, file_path)\<close>.\<close>

definition parse_ftp_url :: "string \<Rightarrow> py_error + (string \<times> string \<times> string)" where
  "parse_ftp_url url =
     (case split ''//'' url of Inl e \<Rightarrow> Inl e | Inr ps \<Rightarrow>
      case index ps 1 of Inl e \<Rightarrow> Inl e | Inr dest \<Rightarrow>
      case index (split_char CHR ''/'' dest) 0 of Inl e \<Rightarrow> Inl e | Inr host \<Rightarrow>
      case split host url of Inl e \<Rightarrow> Inl e | Inr qs \<Rightarrow>
      case index qs 1 of Inl e \<Rightarrow> Inl e | Inr file_path \<Rightarrow>
        Inr (dest, host, file_path))"

text \<open>get_ftp_connection (lines 33-38).\<close>

definition get_ftp_connection :: "env \<Rightarrow> string \<Rightarrow> world \<Rightarrow> py_error + world" where
  "get_ftp_connection en host w =
     (if host \<in> set (ftp_conns w) then Inr w
      else if ftp_login en host then
        Inr (log_call (FtpLogin host) (w\<lparr>ftp_conns := host # ftp_conns w\<rparr>))
      else Inl LibraryError)"

text \<open>s3_get_key (lines 283-290): \<open>None\<close> when the bucket has no such key.\<close>

definition s3_get_key :: "env \<Rightarrow> string \<Rightarrow> world \<Rightarrow> py_error + (netobj option \<times> world)" where
  "s3_get_key en url w =
     (case s3_parse_url url of Inl e \<Rightarrow> Inl e | Inr (bucket, key) \<Rightarrow>
        (let w1 = log_call (S3GetBucket bucket) (w\<lparr>s3_conn := True\<rparr>) in
         if s3_get_bucket en bucket then
           Inr (map_option (S3Key bucket key) (s3_key_size en bucket key),
                log_call (S3GetKey bucket key) w1)
         else Inl LibraryError))"

text \<open>
  get_url_obj (lines 184-216). The HTTP branch catches every exception of \<open>urlopen\<close> and
  falls through to \<open>return "error"\<close>; the FTP and S3 branches catch nothing.
\<close>

definition get_url_obj ::
  "env \<Rightarrow> string \<Rightarrow> string \<Rightarrow> range_hdr \<Rightarrow> world \<Rightarrow> py_error + (netobj \<times> world)" where
  "get_url_obj en url endpoint http_header w =
     (if endpoint = ''HTTP'' then
        (let w1 = log_call (Urlopen url (Some http_header)) w in
         case urlopen en url (Some http_header) of
           None \<Rightarrow> Inr (Str ''error'', w1)
         | Some body \<Rightarrow> Inr (HTTPResponse body, w1))
      else if endpoint = ''FTP'' then
        (case parse_ftp_url url of Inl e \<Rightarrow> Inl e | Inr (dest, host, file_path) \<Rightarrow>
         case get_ftp_connection en host w of Inl e \<Rightarrow> Inl e | Inr w1 \<Rightarrow>
         case ftp_mlsd en host file_path of Inl e \<Rightarrow> Inl e | Inr listed \<Rightarrow>
           (let w2 = log_call (FtpMlsd host file_path) w1 in
            if listed then Inr (FtpGetData host file_path, w2)
            else Inr (Str ''error'', w2)))
      else if endpoint = ''S3'' then
        (case s3_get_key en url w of
           Inl e \<Rightarrow> Inl e
         | Inr (None, w1) \<Rightarrow> Inr (Str ''error'', w1)
         | Inr (Some k, w1) \<Rightarrow> Inr (k, w1))
      else Inr (Str ''error'', w))"

text \<open>
  get_file_size (lines 222-233). It returns \<open>None\<close> for an endpoint that is none of the
  three, and where \<open>ftp.size\<close> does.
\<close>

definition get_file_size ::
  "env \<Rightarrow> string \<Rightarrow> string \<Rightarrow> world \<Rightarrow> py_error + (nat option \<times> world)" where
  "get_file_size en url endpoint w =
     (if endpoint = ''HTTP'' then
        (case urlopen en url None of
           None \<Rightarrow> Inl LibraryError
         | Some body \<Rightarrow>
             (case content_length en url of
                None \<Rightarrow> Inl TypeError
              | Some n \<Rightarrow> Inr (Some n, log_call (Urlopen url None) w)))
      else if endpoint = ''FTP'' then
        (case parse_ftp_url url of Inl e \<Rightarrow> Inl e | Inr (dest, host, file_path) \<Rightarrow>
         case get_ftp_connection en host w of Inl e \<Rightarrow> Inl e | Inr w1 \<Rightarrow>
         case ftp_size en host file_path of Inl e \<Rightarrow> Inl e | Inr n \<Rightarrow>
           Inr (n, log_call (FtpSize host file_path) w1))
      else if endpoint = ''S3'' then
        (case s3_get_key en url w of
           Inl e \<Rightarrow> Inl e
         | Inr (None, w1) \<Rightarrow> Inl AttributeError
         | Inr (Some k, w1) \<Rightarrow>
             (case k of S3Key bucket key n \<Rightarrow> Inr (Some n, w1) | _ \<Rightarrow> Inl AttributeError))
      else Inr (None, w))"

text \<open>
  The callback of the FTP branch of get_buffer (lines 254-260), run on each piece that
  \<open>retrbinary\<close> delivers: it writes the piece, then formats the percentage, dividing by
  \<open>max_range\<close>.
\<close>

fun ftp_callback :: "string \<Rightarrow> nat \<Rightarrow> bytes list \<Rightarrow> world \<Rightarrow> py_error + world" where
  "ftp_callback file max_range [] w = Inr w"
| "ftp_callback file max_range (data # pieces) w =
     (let w1 = file_write file data w in
      if max_range = 0 then Inl ZeroDivisionError
      else ftp_callback file max_range pieces w1)"

text \<open>
  get_buffer (lines 243-278): the buffer (\<open>None\<close> for Python's \<open>None\<close>), \<open>res\<close> after
  the call and the world after it. \<open>file\<close> is the path of the open partial file.
\<close>

definition get_buffer ::
  "env \<Rightarrow> netobj \<Rightarrow> string \<Rightarrow> nat \<Rightarrow> nat \<Rightarrow> nat \<Rightarrow> string \<Rightarrow> world
     \<Rightarrow> py_error + (bytes option \<times> netobj \<times> world)" where
  "get_buffer en res endpoint block_size start_pos max_range file w =
     (if endpoint = ''HTTP'' then
        (case res of
           HTTPResponse body \<Rightarrow>
             Inr (Some (take block_size body), HTTPResponse (drop block_size body),
                  log_call (ResponseRead block_size) w)
         | _ \<Rightarrow> Inl AttributeError)
      else if endpoint = ''FTP'' then
        (case res of
           FtpGetData host file_path \<Rightarrow>
             (case ftp_retrbinary en host file_path block_size start_pos of
                Inl e \<Rightarrow> Inl e
              | Inr pieces \<Rightarrow>
                  (case ftp_callback file max_range pieces
                          (log_call (FtpRetrbinary host file_path block_size start_pos) w) of
                     Inl e \<Rightarrow> Inl e
                   | Inr w1 \<Rightarrow> Inr (None, res, w1)))
         | _ \<Rightarrow> Inl TypeError)
      else if endpoint = ''S3'' then
        (if start_pos \<ge> max_range then Inr (None, res, w)
         else
           (let range_end = int start_pos + int block_size - 1;
                headers = Range start_pos (if range_end \<le> int max_range then Some range_end else None)
            in case res of
                 S3Key bucket key n \<Rightarrow>
                   (case s3_get_contents en bucket key headers of
                      Inl e \<Rightarrow> Inl e
                    | Inr buffer \<Rightarrow>
                        Inr (Some buffer, res, log_call (S3GetContents bucket key headers) w))
               | _ \<Rightarrow> Inl AttributeError))
      else Inr (None, res, w))"

section \<open>Checksum verification\<close>

text \<open>
  The loop of checksum_matches (lines 339-341): \<open>filehandle.read(4096)\<close> until it
  returns \<open>b""\<close>, each chunk passed to \<open>md5.update\<close>. \<open>rest\<close> is what the handle has
  not read yet, \<open>fed\<close> the bytes the MD5 object has been fed so far.
\<close>

function md5_update_loop :: "bytes \<Rightarrow> bytes \<Rightarrow> bytes" where
  "md5_update_loop rest fed =
     (let chunk = take 4096 rest in
      if chunk = [] then fed
      else md5_update_loop (drop 4096 rest) (fed @ chunk))"
  by pat_completeness auto
termination
  by (relation "measure (\<lambda>(rest, fed). length rest)") auto

declare md5_update_loop.simps [simp del]

text \<open>
  checksum_matches (lines 334-349); \<open>open(file_path, 'rb')\<close> raises when there is no
  file, and on a directory.
\<close>

definition checksum_matches :: "env \<Rightarrow> string \<Rightarrow> string \<Rightarrow> world \<Rightarrow> py_error + bool" where
  "checksum_matches en file_path original_md5 w =
     (case files w file_path of
        None \<Rightarrow> if dirs w file_path \<noteq> None then Inl IsADirectoryError else Inl FileNotFoundError
      | Some content \<Rightarrow>
          Inr (if md5_hexdigest en (md5_update_loop content []) = original_md5 then True
               else False))"

section \<open>The download engine\<close>

text \<open>A manifest entry: the dictionary with the keys \<open>id\<close>, \<open>urls\<close> and \<open>md5\<close>.\<close>

record mfile =
  mf_id :: string
  mf_urls :: string
  mf_md5 :: string

text \<open>\<open>url.split(':')[0].upper()\<close> (line 93).\<close>

definition endpoint_of :: "string \<Rightarrow> string" where
  "endpoint_of url = upper (case split_char CHR '':'' url of [] \<Rightarrow> [] | x # _ \<Rightarrow> x)"

text \<open>\<open>url.split('/')[-1]\<close> (line 72).\<close>

definition basename :: "string \<Rightarrow> string" where
  "basename url = last (split_char CHR ''/'' url)"

text \<open>Lines 79-81: the size of the partial path when it exists, else 0.\<close>

definition resume_offset :: "world \<Rightarrow> string \<Rightarrow> nat" where
  "resume_offset w tmp_file_name =
     (if path_exists w tmp_file_name then getsize w tmp_file_name else 0)"

text \<open>
  The loop over the candidates (lines 92-102). \<open>get_fasp_obj\<close> takes four arguments and
  is called with one, which raises TypeError. After the call, both the \<open>"error"\<close> case
  (\<open>continue\<close>) and the other case go on to the next URL: the loop has no \<open>break\<close>.
\<close>

fun open_loop ::
  "env \<Rightarrow> range_hdr \<Rightarrow> string list \<Rightarrow> netobj \<Rightarrow> string \<Rightarrow> string list \<Rightarrow> world
     \<Rightarrow> py_error + (netobj \<times> string \<times> string list \<times> world)" where
  "open_loop en http_header [] res endpoint endpoints w = Inr (res, endpoint, endpoints, w)"
| "open_loop en http_header (url # url_list) res endpoint endpoints w =
     (let endpoint' = endpoint_of url;
          endpoints' = endpoints @ [endpoint']
      in if endpoint' = ''FASP'' then Inl TypeError
         else
           (case get_url_obj en url endpoint' http_header w of
              Inl e \<Rightarrow> Inl e
            | Inr (res', w') \<Rightarrow> open_loop en http_header url_list res' endpoint' endpoints' w'))"

text \<open>
  The loop \<open>while True\<close> (lines 119-137), for a file size that is a number. The
  percentage of the status message divides by \<open>file_size\<close>.
\<close>

function transfer_loop ::
  "env \<Rightarrow> netobj \<Rightarrow> string \<Rightarrow> nat \<Rightarrow> nat \<Rightarrow> nat \<Rightarrow> string \<Rightarrow> world \<Rightarrow> py_error + world" where
  "transfer_loop en res endpoint block_size current_byte file_size file w =
     (case get_buffer en res endpoint block_size current_byte file_size file w of
        Inl e \<Rightarrow> Inl e
      | Inr (None, res', w1) \<Rightarrow> Inr w1
      | Inr (Some buffer, res', w1) \<Rightarrow>
          (if buffer = [] then Inr w1
           else
             (let w2 = file_write file buffer w1 in
              if file_size = 0 then Inl ZeroDivisionError
              else transfer_loop en res' endpoint block_size (current_byte + length buffer)
                     file_size file w2)))"
  by pat_completeness auto
termination
proof (relation "measure (\<lambda>(en, res, endpoint, block_size, current_byte, file_size, f, w).
          (case res of HTTPResponse body \<Rightarrow> length body | _ \<Rightarrow> 0) + (file_size - current_byte))",
       goal_cases)
  case 1
  show ?case by simp
next
  case (2 en res endpoint block_size current_byte file_size f w x2 x1 y x2a x2b w2)
  then have gb: "get_buffer en res endpoint block_size current_byte file_size f w
      = Inr (Some x2a, x2b, w2)"
    by simp
  from 2 obtain k where "length x2a = Suc k"
    by (cases x2a) auto
  with gb
  have "(case x2b of HTTPResponse body \<Rightarrow> length body | _ \<Rightarrow> 0)
          + (file_size - (current_byte + length x2a))
        < (case res of HTTPResponse body \<Rightarrow> length body | _ \<Rightarrow> 0) + (file_size - current_byte)"
    by (auto simp: get_buffer_def Let_def split: if_splits netobj.splits sum.splits)
  then show ?case
    by simp
qed

declare transfer_loop.simps [simp del]

text \<open>
  The \<open>with\<close> block (lines 111-137). \<open>block_size > file_size\<close> (line 120) raises
  TypeError when \<open>file_size\<close> is \<open>None\<close>.
\<close>

definition transfer ::
  "env \<Rightarrow> netobj \<Rightarrow> string \<Rightarrow> string \<Rightarrow> nat \<Rightarrow> nat \<Rightarrow> string \<Rightarrow> world \<Rightarrow> py_error + world" where
  "transfer en res endpoint url block_size current_byte tmp_file_name w =
     (case open_ab tmp_file_name w of
        Inl e \<Rightarrow> Inl e
      | Inr w1 \<Rightarrow>
          (case get_file_size en url endpoint w1 of
             Inl e \<Rightarrow> Inl e
           | Inr (None, w2) \<Rightarrow> Inl TypeError
           | Inr (Some file_size, w2) \<Rightarrow>
               transfer_loop en res endpoint block_size current_byte file_size tmp_file_name w2))"

text \<open>Lines 139-147: the check of the partial file and the outcome code.\<close>

definition finalize :: "env \<Rightarrow> string \<Rightarrow> string \<Rightarrow> string \<Rightarrow> world \<Rightarrow> py_error + (nat \<times> world)" where
  "finalize en tmp_file_name file_name md5 w =
     (case checksum_matches en tmp_file_name md5 w of
        Inl e \<Rightarrow> Inl e
      | Inr True \<Rightarrow>
          (case move tmp_file_name file_name w of
             Inl e \<Rightarrow> Inl e
           | Inr w1 \<Rightarrow> Inr (0, w1))
      | Inr False \<Rightarrow> Inr (3, w))"

text \<open>
  The body of the loop over the manifest (lines 63-150): the code appended to
  \<open>failed_files\<close> for one entry, and the world after it. After the loop over the
  candidates, \<open>url\<close> is the last candidate.
\<close>

definition download_mfile ::
  "env \<Rightarrow> string \<Rightarrow> string \<Rightarrow> nat \<Rightarrow> mfile \<Rightarrow> world \<Rightarrow> py_error + (nat \<times> world)" where
  "download_mfile en destination priorities block_size mf w =
     (case get_prioritized_endpoint (on_ec2 en) (mf_urls mf) priorities of
        Inl e \<Rightarrow> Inl e
      | Inr [] \<Rightarrow> Inr (1, w)
      | Inr (url0 # url_rest) \<Rightarrow>
          (let url_list = url0 # url_rest;
               file_name = destination @ ''/'' @ basename url0
           in if \<not> path_exists w file_name then
                (let tmp_file_name = file_name @ ''.partial'';
                     current_byte = resume_offset w tmp_file_name;
                     http_header = Range current_byte None
                 in case open_loop en http_header url_list (Str '''') '''' [] w of
                      Inl e \<Rightarrow> Inl e
                    | Inr (res, endpoint, endpoints, w1) \<Rightarrow>
                        if res = Str ''error'' then Inr (2, w1)
                        else
                          (case transfer en res endpoint (last url_list) block_size
                                  current_byte tmp_file_name w1 of
                             Inl e \<Rightarrow> Inl e
                           | Inr w2 \<Rightarrow> finalize en tmp_file_name file_name (mf_md5 mf) w2))
              else Inr (0, w)))"

text \<open>The loop \<open>for mfile in manifest\<close> (line 61), appending to \<open>failed_files\<close>.\<close>

fun manifest_loop ::
  "env \<Rightarrow> string \<Rightarrow> string \<Rightarrow> nat \<Rightarrow> mfile list \<Rightarrow> nat list \<Rightarrow> world
     \<Rightarrow> py_error + (nat list \<times> world)" where
  "manifest_loop en destination priorities block_size [] failed_files w = Inr (failed_files, w)"
| "manifest_loop en destination priorities block_size (mf # manifest) failed_files w =
     (case download_mfile en destination priorities block_size mf w of
        Inl e \<Rightarrow> Inl e
      | Inr (code, w1) \<Rightarrow>
          manifest_loop en destination priorities block_size manifest (failed_files @ [code]) w1)"

text \<open>download_manifest (lines 53-152): the list it returns and the world it leaves.\<close>

definition download_manifest ::
  "env \<Rightarrow> mfile list \<Rightarrow> string \<Rightarrow> string \<Rightarrow> nat \<Rightarrow> world \<Rightarrow> py_error + (nat list \<times> world)" where
  "download_manifest en manifest destination priorities block_size w =
     manifest_loop en destination priorities block_size manifest [] w"

section \<open>Notions of the specification\<close>

text \<open>
  The scheme token of a URL: what precedes its first colon. Line 93 computes the same
  piece for the endpoint name.
\<close>

definition scheme_of :: "string \<Rightarrow> string" where
  "scheme_of url = (case split_char CHR '':'' url of [] \<Rightarrow> [] | x # _ \<Rightarrow> x)"

text \<open>
  The specification's "the URL's scheme appears in the priority set", with the tokens
  compared without regard to case.
\<close>

definition scheme_in_priorities :: "string \<Rightarrow> string list \<Rightarrow> bool" where
  "scheme_in_priorities url eps = (upper (scheme_of url) \<in> set (map upper eps))"

text \<open>
  The specification's scan: for each priority token in order, every URL of the set that
  matches it, in the order of the set. A URL matches a token when it starts with the
  token in lower case, which is the test of line 317.
\<close>

definition selected :: "string list \<Rightarrow> string list \<Rightarrow> string list" where
  "selected eps urls = concat (map (\<lambda>ep. filter (\<lambda>url. startswith url (lower ep)) urls) eps)"

text \<open>
  A remote side that holds \<open>content\<close> at \<open>url\<close> and answers honestly the requests of a
  transfer that starts at offset \<open>K\<close> with blocks of \<open>block_size\<close> bytes:
  \<^item> HTTP: a request with the header \<open>Range: bytes=K-\<close> is answered with the content
    from offset \<open>K\<close>, and a request without headers announces the full length;
  \<^item> FTP: the path is listed, \<open>SIZE\<close> is the full length, and a retrieval restarted at
    \<open>K\<close> delivers the content from offset \<open>K\<close> in non-empty pieces;
  \<^item> S3: the key exists with the full length, and each ranged read that get_buffer
    can make at an offset from \<open>K\<close> on returns the bytes of that range.
\<close>

definition served :: "env \<Rightarrow> string \<Rightarrow> nat \<Rightarrow> nat \<Rightarrow> bytes \<Rightarrow> bool" where
  "served en url K block_size content =
     (if endpoint_of url = ''HTTP'' then
        urlopen en url (Some (Range K None)) = Some (drop K content)
        \<and> urlopen en url None \<noteq> None
        \<and> content_length en url = Some (length content)
      else if endpoint_of url = ''FTP'' then
        (case parse_ftp_url url of
           Inl e \<Rightarrow> False
         | Inr (dest, host, file_path) \<Rightarrow>
             ftp_login en host
             \<and> ftp_mlsd en host file_path = Inr True
             \<and> ftp_size en host file_path = Inr (Some (length content))
             \<and> (case ftp_retrbinary en host file_path block_size K of
                  Inl e \<Rightarrow> False
                | Inr pieces \<Rightarrow> [] \<notin> set pieces \<and> concat pieces = drop K content))
      else if endpoint_of url = ''S3'' then
        (case s3_parse_url url of
           Inl e \<Rightarrow> False
         | Inr (bucket, key) \<Rightarrow>
             s3_get_bucket en bucket
             \<and> s3_key_size en bucket key = Some (length content)
             \<and> list_all
                  (\<lambda>a. s3_get_contents en bucket key
                         (Range a (if int a + int block_size - 1 \<le> int (length content)
                                   then Some (int a + int block_size - 1) else None))
                       = Inr (take block_size (drop a content)))
                  [K..<length content])
      else False)"

section \<open>Example environments\<close>

text \<open>
  A remote side that serves the listed URLs over HTTP and honours range requests (a
  range that starts at or after the end of the content is refused), with no FTP server
  and no S3 bucket. Its digest of a byte string is the byte string itself.
\<close>

definition http_site :: "(string \<times> bytes) list \<Rightarrow> env" where
  "http_site site =
     \<lparr>on_ec2 = False,
      urlopen = (\<lambda>u h. case map_of site u of
                   None \<Rightarrow> None
                 | Some c \<Rightarrow>
                     (case h of
                        None \<Rightarrow> Some c
                      | Some (Range a e) \<Rightarrow> if a < length c then Some (drop a c) else None)),
      content_length = (\<lambda>u. map_option length (map_of site u)),
      ftp_login = (\<lambda>h. False),
      ftp_mlsd = (\<lambda>h p. Inl LibraryError),
      ftp_size = (\<lambda>h p. Inl LibraryError),
      ftp_retrbinary = (\<lambda>h p b r. Inl LibraryError),
      s3_get_bucket = (\<lambda>b. False),
      s3_key_size = (\<lambda>b k. None),
      s3_get_contents = (\<lambda>b k h. Inl LibraryError),
      md5_hexdigest = (\<lambda>bs. bs)\<rparr>"

text \<open>
  An empty destination directory \<open>dest\<close>, no cached connection, no call made yet.
\<close>

definition empty_world :: world where
  "empty_world =
     \<lparr>files = Map.empty, dirs = [''dest'' \<mapsto> 4096, ''dest/'' \<mapsto> 4096],
      ftp_conns = [], s3_conn = False, calls = []\<rparr>"

text \<open>What a call returns to its caller: the value, or the exception.\<close>

definition returned :: "py_error + ('a \<times> world) \<Rightarrow> py_error + 'a" where
  "returned r = (case r of Inl e \<Rightarrow> Inl e | Inr (x, w) \<Rightarrow> Inr x)"

text \<open>The files on disk after a call that returned.\<close>

definition files_after :: "py_error + ('a \<times> world) \<Rightarrow> string \<Rightarrow> bytes option" where
  "files_after r p = (case r of Inl e \<Rightarrow> None | Inr (x, w) \<Rightarrow> files w p)"

text \<open>The calls made up to the end of a call that returned.\<close>

definition calls_after :: "py_error + ('a \<times> world) \<Rightarrow> event list" where
  "calls_after r = (case r of Inl e \<Rightarrow> [] | Inr (x, w) \<Rightarrow> calls w)"

text \<open>
  A running example: one file of eleven bytes served over HTTP, an entry for it with a
  given expected digest, and the world after the request that opens it at offset \<open>k\<close>.
\<close>

definition demo_site :: env where
  "demo_site = http_site [(''http://a/x.bin'', ''hello world'')]"

definition demo_mfile :: "string \<Rightarrow> mfile" where
  "demo_mfile md5 = \<lparr>mf_id = ''F1'', mf_urls = ''http://a/x.bin'', mf_md5 = md5\<rparr>"

definition demo_opened :: "nat \<Rightarrow> world \<Rightarrow> world" where
  "demo_opened k w = log_call (Urlopen ''http://a/x.bin'' (Some (Range k None))) w"

text \<open>
  A remote side that serves the same content at every HTTP URL, FTP path and S3 key and
  honours offsets; an FTP retrieval delivers at most two pieces. Its digest of a byte
  string is the byte string itself.
\<close>

definition mirror_site :: "bytes \<Rightarrow> env" where
  "mirror_site content =
     \<lparr>on_ec2 = False,
      urlopen = (\<lambda>u h. case h of
                   None \<Rightarrow> Some content
                 | Some (Range a e) \<Rightarrow> if a < length content then Some (drop a content) else None),
      content_length = (\<lambda>u. Some (length content)),
      ftp_login = (\<lambda>h. True),
      ftp_mlsd = (\<lambda>h p. Inr True),
      ftp_size = (\<lambda>h p. Inr (Some (length content))),
      ftp_retrbinary = (\<lambda>h p b r.
         Inr (filter (\<lambda>piece. piece \<noteq> []) [take b (drop r content), drop b (drop r content)])),
      s3_get_bucket = (\<lambda>b. True),
      s3_key_size = (\<lambda>b k. Some (length content)),
      s3_get_contents = (\<lambda>b k h. case h of
                   Range a None \<Rightarrow> Inr (drop a content)
                 | Range a (Some e) \<Rightarrow> Inr (take (nat (e - int a + 1)) (drop a content))),
      md5_hexdigest = (\<lambda>bs. bs)\<rparr>"

text \<open>A destination directory that holds the first three bytes of \<open>x.bin\<close> as a partial file.\<close>

definition resumed_world :: world where
  "resumed_world = empty_world\<lparr>files := [''dest/x.bin.partial'' \<mapsto> ''hel'']\<rparr>"

definition mirror_mfile :: "string \<Rightarrow> mfile" where
  "mirror_mfile url = \<lparr>mf_id = ''F1'', mf_urls = url, mf_md5 = ''hello world''\<rparr>"

section \<open>String methods: properties\<close>

text \<open>
  A split yields at least one piece, so that \<open>[0]\<close> and \<open>[-1]\<close> of a split never
  raise: \<open>basename\<close> and \<open>endpoint_of\<close> are defined on every URL.
\<close>

lemma split_go_nonempty: "split_go sep k cur s \<noteq> []"
  by (induction s arbitrary: k cur) auto

lemma split_char_nonempty: "split_char c s \<noteq> []"
  by (simp add: split_char_def split_go_nonempty)

lemma basename_no_slash: "CHR ''/'' \<notin> set name \<Longrightarrow> basename (prefix @ ''/'' @ name) = name"
proof -
  have go: "\<And>cur. CHR ''/'' \<notin> set name \<Longrightarrow> split_go ''/'' 0 cur name = [rev cur @ name]"
    by (induction name) (auto simp: startswith_def)
  have "\<And>k cur. CHR ''/'' \<notin> set name \<Longrightarrow> k \<le> 0 \<Longrightarrow>
          last (split_go ''/'' k cur (prefix @ ''/'' @ name)) = name"
  proof (induction prefix)
    case Nil
    then show ?case using go [of "[]"] by (simp add: startswith_def)
  next
    case (Cons a prefix)
    then show ?case by (auto simp: startswith_def split_go_nonempty)
  qed
  then show "CHR ''/'' \<notin> set name \<Longrightarrow> basename (prefix @ ''/'' @ name) = name"
    by (simp add: basename_def split_char_def)
qed

section \<open>Endpoint selection: properties\<close>

lemma url_loop_result:
  "url_loop ep urls acc = Inr r \<Longrightarrow>
     map Inr r = map Inr acc @ map demo_rewrite (filter (\<lambda>url. startswith url (lower ep)) urls)"
  by (induction urls arbitrary: acc) (auto split: if_splits sum.splits)

lemma ep_loop_result:
  "ep_loop eps urls acc = Inr r \<Longrightarrow>
     map Inr r = map Inr acc @ map demo_rewrite (selected eps urls)"
proof (induction eps arbitrary: acc)
  case Nil
  then show ?case by (simp add: selected_def)
next
  case (Cons ep eps)
  from Cons.prems obtain acc' where a: "url_loop ep urls acc = Inr acc'"
    and b: "ep_loop eps urls acc' = Inr r"
    by (auto split: sum.splits)
  from Cons.IH [OF b] url_loop_result [OF a] show ?case
    by (simp add: selected_def)
qed

lemma url_loop_plain:
  "\<forall>url \<in> set urls. \<not> contains ''HMDEMO'' url \<Longrightarrow>
     url_loop ep urls acc = Inr (acc @ filter (\<lambda>url. startswith url (lower ep)) urls)"
  by (induction urls arbitrary: acc) (auto simp: demo_rewrite_def)

lemma ep_loop_plain:
  "\<forall>url \<in> set urls. \<not> contains ''HMDEMO'' url \<Longrightarrow>
     ep_loop eps urls acc = Inr (acc @ selected eps urls)"
  by (induction eps arbitrary: acc) (auto simp: url_loop_plain selected_def)

lemma url_loop_none:
  "filter (\<lambda>url. startswith url (lower ep)) urls = [] \<Longrightarrow> url_loop ep urls acc = Inr acc"
  by (induction urls arbitrary: acc) (auto split: if_splits)

lemma ep_loop_none:
  "selected eps urls = [] \<Longrightarrow> ep_loop eps urls acc = Inr acc"
  by (induction eps arbitrary: acc) (auto simp: selected_def url_loop_none)

lemma get_prioritized_endpoint_none:
  "selected (effective_priorities ec2 priorities) (split_char CHR '','' manifest_urls) = []
     \<Longrightarrow> get_prioritized_endpoint ec2 manifest_urls priorities = Inr []"
  by (simp add: get_prioritized_endpoint_def ep_loop_none)

text \<open>
  C3, as the specification states it, fails: with the priority \<open>http\<close>, the URL
  \<open>https://h/x.bin\<close> is returned although its scheme \<open>https\<close> is not in the priority
  set.
\<close>

theorem get_prioritized_endpoint_returns_other_scheme:
  "get_prioritized_endpoint False ''https://h/x.bin'' ''http'' = Inr [''https://h/x.bin'']
   \<and> \<not> scheme_in_priorities ''https://h/x.bin'' (split_char CHR '','' ''http'')"
  by (simp add: get_prioritized_endpoint_def effective_priorities_def split_char_def
        startswith_def lower_def lower_char_def demo_rewrite_def scheme_in_priorities_def
        scheme_of_def upper_def upper_char_def)

text \<open>
  C3, amended: when get_prioritized_endpoint returns a list, the list is the demo
  rewrite of, for each priority token in effect in order, the URLs of the set that start
  with the token in lower case, in the order of the set; when no URL of the set contains
  \<open>HMDEMO\<close> it returns exactly these URLs; and when no URL starts with a token in
  lower case it returns the empty list.
\<close>

theorem get_prioritized_endpoint_selects_by_prefix:
  fixes ec2 manifest_urls priorities
  defines "urls \<equiv> split_char CHR '','' manifest_urls"
    and "eps \<equiv> effective_priorities ec2 priorities"
  shows "(get_prioritized_endpoint ec2 manifest_urls priorities = Inr url_list \<longrightarrow>
            map Inr url_list = map demo_rewrite (selected eps urls))
       \<and> ((\<forall>url \<in> set urls. \<not> contains ''HMDEMO'' url) \<longrightarrow>
            get_prioritized_endpoint ec2 manifest_urls priorities = Inr (selected eps urls))
       \<and> (selected eps urls = [] \<longrightarrow>
            get_prioritized_endpoint ec2 manifest_urls priorities = Inr [])"
  using ep_loop_result [of eps urls "[]" url_list] ep_loop_plain [of urls eps "[]"]
    ep_loop_none [of eps urls "[]"]
  by (simp add: get_prioritized_endpoint_def urls_def eps_def)

theorem get_prioritized_endpoint_selects_by_prefix_witness:
  "list_all (\<lambda>url. \<not> contains ''HMDEMO'' url)
     (split_char CHR '','' ''http://a/x.bin,ftp://b/x.bin,http://c/x.bin'')
   \<and> get_prioritized_endpoint False ''http://a/x.bin,ftp://b/x.bin,http://c/x.bin'' ''ftp,http''
       = Inr [''ftp://b/x.bin'', ''http://a/x.bin'', ''http://c/x.bin'']
   \<and> selected (effective_priorities False ''ftp'') (split_char CHR '','' ''http://a/x.bin'') = []
   \<and> get_prioritized_endpoint False ''http://a/x.bin'' ''ftp'' = Inr []"
  using get_prioritized_endpoint_selects_by_prefix
          [of False "''http://a/x.bin,ftp://b/x.bin,http://c/x.bin''" "''ftp,http''"]
        get_prioritized_endpoint_selects_by_prefix [of False "''http://a/x.bin''" "''ftp''"]
  by (simp add: selected_def effective_priorities_def split_char_def startswith_def lower_def
        lower_char_def)

section \<open>S3 URLs: properties\<close>

lemma split1_at: "c \<notin> set a \<Longrightarrow> split1 c (a @ c # b) = [a, b]"
  by (simp add: split1_def dropWhile_append3 takeWhile_append2 dropWhile_append
        takeWhile_append)

text \<open>
  C10: s3_get_key strips with \<open>lstrip('s3://')\<close>, which drops every leading character
  among \<open>s\<close>, \<open>3\<close>, \<open>:\<close> and \<open>/\<close>. For a bucket name that does not begin with one of
  them (and, being a host segment, is not empty and has no slash), the parsed bucket is
  the host segment and the key is the rest of the path; for \<open>s3://sample-bucket/key\<close>
  the parsed bucket is \<open>ample-bucket\<close>.
\<close>

theorem s3_get_key_lstrip:
  "(bucket \<noteq> [] \<and> hd bucket \<notin> set ''s3:/'' \<and> CHR ''/'' \<notin> set bucket \<longrightarrow>
      s3_parse_url (''s3://'' @ bucket @ ''/'' @ key) = Inr (bucket, key))
   \<and> s3_parse_url ''s3://sample-bucket/key'' = Inr (''ample-bucket'', ''key'')
   \<and> lstrip ''s3://'' url = dropWhile (\<lambda>c. c \<in> {CHR ''s'', CHR ''3'', CHR '':'', CHR ''/''}) url"
proof (intro conjI impI)
  assume a: "bucket \<noteq> [] \<and> hd bucket \<notin> set ''s3:/'' \<and> CHR ''/'' \<notin> set bucket"
  then obtain b bs where b: "bucket = b # bs" by (cases bucket) auto
  with a have "lstrip ''s3://'' (''s3://'' @ bucket @ ''/'' @ key) = bucket @ CHR ''/'' # key"
    by (simp add: lstrip_def)
  with a show "s3_parse_url (''s3://'' @ bucket @ ''/'' @ key) = Inr (bucket, key)"
    by (simp add: s3_parse_url_def split1_at index_def)
next
  show "s3_parse_url ''s3://sample-bucket/key'' = Inr (''ample-bucket'', ''key'')"
    by (simp add: s3_parse_url_def lstrip_def split1_def index_def)
next
  have "(\<lambda>x. x \<in> set ''s3://'') = (\<lambda>c. c \<in> {CHR ''s'', CHR ''3'', CHR '':'', CHR ''/''})"
    by auto
  then show "lstrip ''s3://'' url
      = dropWhile (\<lambda>c. c \<in> {CHR ''s'', CHR ''3'', CHR '':'', CHR ''/''}) url"
    by (simp add: lstrip_def)
qed

theorem s3_get_key_lstrip_witness:
  "''my-bucket'' \<noteq> [] \<and> hd ''my-bucket'' \<notin> set ''s3:/'' \<and> CHR ''/'' \<notin> set ''my-bucket''
   \<and> s3_parse_url ''s3://my-bucket/dir/key'' = Inr (''my-bucket'', ''dir/key'')"
  using s3_get_key_lstrip [of "''my-bucket''" "''dir/key''"] by simp

section \<open>Checksum verification: properties\<close>

lemma md5_update_loop_all: "md5_update_loop rest fed = fed @ rest"
proof (induction rest fed rule: md5_update_loop.induct)
  case (1 rest fed)
  show ?case
  proof (cases "take 4096 rest = []")
    case True
    then show ?thesis by (subst md5_update_loop.simps) (auto simp: Let_def)
  next
    case False
    with 1 have "md5_update_loop (drop 4096 rest) (fed @ take 4096 rest)
        = (fed @ take 4096 rest) @ drop 4096 rest"
      by simp
    with False show ?thesis by (subst md5_update_loop.simps) (simp add: Let_def)
  qed
qed

text \<open>
  C8: checksum_matches reads the file in chunks of 4096 bytes until a read returns
  nothing and feeds each chunk to the MD5 object, so that the digest is the digest of
  the whole file; it returns true exactly when that digest equals the expected digest
  (an exact comparison of the two strings).
\<close>

theorem checksum_matches_whole_file:
  "files w file_path = Some content \<Longrightarrow>
     checksum_matches en file_path original_md5 w
       = Inr (md5_hexdigest en content = original_md5)"
  by (simp add: checksum_matches_def md5_update_loop_all)

theorem checksum_matches_whole_file_witness:
  "files (empty_world\<lparr>files := [''dest/x.bin.partial'' \<mapsto> ''hello'']\<rparr>) ''dest/x.bin.partial''
     = Some ''hello''
   \<and> checksum_matches (http_site []) ''dest/x.bin.partial'' ''hello''
        (empty_world\<lparr>files := [''dest/x.bin.partial'' \<mapsto> ''hello'']\<rparr>) = Inr True
   \<and> checksum_matches (http_site []) ''dest/x.bin.partial'' ''HELLO''
        (empty_world\<lparr>files := [''dest/x.bin.partial'' \<mapsto> ''hello'']\<rparr>) = Inr False"
  using checksum_matches_whole_file
          [of "empty_world\<lparr>files := [''dest/x.bin.partial'' \<mapsto> ''hello'']\<rparr>"
              "''dest/x.bin.partial''" "''hello''" "http_site []" "''hello''"]
        checksum_matches_whole_file
          [of "empty_world\<lparr>files := [''dest/x.bin.partial'' \<mapsto> ''hello'']\<rparr>"
              "''dest/x.bin.partial''" "''hello''" "http_site []" "''HELLO''"]
  by (simp add: http_site_def empty_world_def)

section \<open>The download engine: what a run does to the files\<close>

lemma files_log_call [simp]: "files (log_call ev w) = files w"
  by (simp add: log_call_def)

lemma dirs_log_call [simp]: "dirs (log_call ev w) = dirs w"
  by (simp add: log_call_def)

lemma get_ftp_connection_dirs:
  "get_ftp_connection en host w = Inr w' \<Longrightarrow> dirs w' = dirs w"
  by (auto simp: get_ftp_connection_def split: if_splits)

lemma s3_get_key_dirs: "s3_get_key en url w = Inr (k, w') \<Longrightarrow> dirs w' = dirs w"
  by (auto simp: s3_get_key_def Let_def split: sum.splits prod.splits if_splits)

lemma get_url_obj_dirs:
  "get_url_obj en url endpoint hdr w = Inr (res, w') \<Longrightarrow> dirs w' = dirs w"
  by (auto simp: get_url_obj_def Let_def
        split: if_splits option.splits sum.splits prod.splits
        dest: get_ftp_connection_dirs s3_get_key_dirs)

lemma open_loop_dirs:
  "open_loop en hdr urls res endpoint endpoints w = Inr (res', endpoint', endpoints', w')
     \<Longrightarrow> dirs w' = dirs w"
proof (induction urls arbitrary: res endpoint endpoints w)
  case Nil
  then show ?case by simp
next
  case (Cons url urls)
  then show ?case
    by (auto simp: Let_def split: if_splits sum.splits prod.splits dest: get_url_obj_dirs)
qed

lemma get_ftp_connection_files:
  "get_ftp_connection en host w = Inr w' \<Longrightarrow> files w' = files w"
  by (auto simp: get_ftp_connection_def split: if_splits)

lemma s3_get_key_files: "s3_get_key en url w = Inr (k, w') \<Longrightarrow> files w' = files w"
  by (auto simp: s3_get_key_def Let_def split: sum.splits prod.splits if_splits)

lemma get_url_obj_files:
  "get_url_obj en url endpoint hdr w = Inr (res, w') \<Longrightarrow> files w' = files w"
  by (auto simp: get_url_obj_def Let_def
        split: if_splits option.splits sum.splits prod.splits
        dest: get_ftp_connection_files s3_get_key_files)

lemma open_loop_files:
  "open_loop en hdr urls res endpoint endpoints w = Inr (res', endpoint', endpoints', w')
     \<Longrightarrow> files w' = files w"
proof (induction urls arbitrary: res endpoint endpoints w)
  case Nil
  then show ?case by simp
next
  case (Cons url urls)
  then show ?case
    by (auto simp: Let_def split: if_splits sum.splits prod.splits dest: get_url_obj_files)
qed

lemma get_file_size_files:
  "get_file_size en url endpoint w = Inr (n, w') \<Longrightarrow> files w' = files w"
  by (auto simp: get_file_size_def Let_def
        split: if_splits option.splits sum.splits prod.splits netobj.splits
        dest: get_ftp_connection_files s3_get_key_files)

lemma ftp_callback_files:
  "ftp_callback f max_range pieces w = Inr w' \<Longrightarrow> files w f = Some c \<Longrightarrow>
     files w' = (files w)(f \<mapsto> c @ concat pieces)"
proof (induction pieces arbitrary: w c)
  case Nil
  then show ?case by auto
next
  case (Cons data pieces)
  from Cons.prems have r: "ftp_callback f max_range pieces (file_write f data w) = Inr w'"
    by (auto simp: Let_def split: if_splits)
  have "files (file_write f data w) f = Some (c @ data)"
    using Cons.prems(2) by (simp add: file_write_def content_of_def)
  from Cons.IH [OF r this] Cons.prems(2) show ?case
    by (auto simp: file_write_def content_of_def fun_eq_iff)
qed

lemma get_buffer_files:
  "get_buffer en res endpoint block_size start_pos max_range f w = Inr (buf, res', w')
     \<Longrightarrow> files w f = Some c \<Longrightarrow> \<exists>d. files w' = (files w)(f \<mapsto> c @ d)"
proof -
  assume a: "get_buffer en res endpoint block_size start_pos max_range f w = Inr (buf, res', w')"
    and c: "files w f = Some c"
  have same: "files w = (files w)(f \<mapsto> c @ [])"
    using c by auto
  show ?thesis
  proof (cases "endpoint = ''FTP''")
    case True
    with a obtain pieces w0 where "ftp_callback f max_range pieces w0 = Inr w'" "files w0 = files w"
      by (auto simp: get_buffer_def split: netobj.splits sum.splits)
    with ftp_callback_files [of f max_range pieces w0 w' c] c show ?thesis
      by auto
  next
    case False
    with a have "files w' = files w"
      by (auto simp: get_buffer_def Let_def split: if_splits netobj.splits sum.splits)
    with same show ?thesis by metis
  qed
qed

lemma transfer_loop_files:
  "transfer_loop en res endpoint block_size current_byte file_size f w = Inr w'
     \<Longrightarrow> files w f = Some c \<Longrightarrow> \<exists>d. files w' = (files w)(f \<mapsto> c @ d)"
proof (induction en res endpoint block_size current_byte file_size f w arbitrary: c
        rule: transfer_loop.induct)
  case (1 en res endpoint block_size current_byte file_size f w)
  from "1.prems"(1) obtain buf res1 w1 where
    gb: "get_buffer en res endpoint block_size current_byte file_size f w = Inr (buf, res1, w1)"
    by (subst (asm) transfer_loop.simps) (auto split: sum.splits)
  from get_buffer_files [OF gb "1.prems"(2)] obtain d where
    d: "files w1 = (files w)(f \<mapsto> c @ d)" by blast
  show ?case
  proof (cases "\<exists>b. buf = Some b \<and> b \<noteq> []")
    case False
    with gb "1.prems"(1) have "w' = w1"
      by (subst (asm) transfer_loop.simps) (auto split: option.splits if_splits)
    with d show ?thesis by blast
  next
    case True
    then obtain b where b: "buf = Some b" "b \<noteq> []" by blast
    with gb "1.prems"(1) have
      rec: "transfer_loop en res1 endpoint block_size (current_byte + length b) file_size f
              (file_write f b w1) = Inr w'" and fs: "file_size \<noteq> 0"
      by (subst (asm) transfer_loop.simps, auto simp: Let_def split: if_splits)+
    have fw: "files (file_write f b w1) f = Some (c @ d @ b)"
      using d by (simp add: file_write_def content_of_def)
    from "1.IH" [OF gb refl b(1) refl b(2) refl fs rec fw]
    obtain d' where "files w' = (files (file_write f b w1))(f \<mapsto> (c @ d @ b) @ d')"
      by blast
    with d show ?thesis
      by (auto simp: file_write_def content_of_def)
  qed
qed

lemma transfer_files:
  "transfer en res endpoint url block_size current_byte tmp w = Inr w2
     \<Longrightarrow> \<exists>d. files w2 = (files w)(tmp \<mapsto> content_of w tmp @ d)"
proof -
  assume a: "transfer en res endpoint url block_size current_byte tmp w = Inr w2"
  then obtain n w1 where
    sz: "get_file_size en url endpoint (open_append tmp w) = Inr (Some n, w1)"
    and lp: "transfer_loop en res endpoint block_size current_byte n tmp w1 = Inr w2"
    by (auto simp: transfer_def open_ab_def split: sum.splits option.splits if_splits)
  from get_file_size_files [OF sz]
  have f1: "files w1 = (files w)(tmp \<mapsto> content_of w tmp)"
    by (simp add: open_append_def)
  then have "files w1 tmp = Some (content_of w tmp)" by simp
  from transfer_loop_files [OF lp this] f1 show ?thesis by auto
qed

lemma finalize_result:
  "files w tmp = Some c \<Longrightarrow>
     finalize en tmp file_name md5 w =
       (if md5_hexdigest en c = md5
        then Inr (0, log_call (Move tmp file_name) (w\<lparr>files := (files w)(file_name \<mapsto> c, tmp := None)\<rparr>))
        else Inr (3, w))"
  by (simp add: finalize_def checksum_matches_def md5_update_loop_all move_def)

lemma download_mfile_code:
  "download_mfile en destination priorities block_size mf w = Inr (code, w') \<Longrightarrow> code \<in> {0, 1, 2, 3}"
  by (auto simp: download_mfile_def finalize_def Let_def
        split: sum.splits list.splits if_splits prod.splits bool.splits)

lemma manifest_loop_codes:
  "manifest_loop en destination priorities block_size manifest acc w = Inr (codes, w') \<Longrightarrow>
     \<exists>cs. codes = acc @ cs \<and> length cs = length manifest \<and> set cs \<subseteq> {0, 1, 2, 3}"
proof (induction manifest arbitrary: acc w)
  case Nil
  then show ?case by simp
next
  case (Cons mf manifest)
  from Cons.prems obtain c w1 where
    s: "download_mfile en destination priorities block_size mf w = Inr (c, w1)"
    and r: "manifest_loop en destination priorities block_size manifest (acc @ [c]) w1 = Inr (codes, w')"
    by (auto split: sum.splits)
  from Cons.IH [OF r] obtain cs where
    cs: "codes = (acc @ [c]) @ cs" "length cs = length manifest" "set cs \<subseteq> {0, 1, 2, 3}"
    by blast
  from download_mfile_code [OF s] have "c \<in> {0, 1, 2, 3}" .
  with cs have "codes = acc @ (c # cs) \<and> length (c # cs) = length (mf # manifest)
      \<and> set (c # cs) \<subseteq> {0, 1, 2, 3}"
    by simp
  then show ?case by blast
qed

lemma download_manifest_codes:
  "download_manifest en manifest destination priorities block_size w = Inr (codes, w') \<Longrightarrow>
     length codes = length manifest \<and> set codes \<subseteq> {0, 1, 2, 3}"
  using manifest_loop_codes [of en destination priorities block_size manifest "[]" w codes w']
  by (auto simp: download_manifest_def)

lemma download_mfile_unfold:
  assumes sel: "get_prioritized_endpoint (on_ec2 en) (mf_urls mf) priorities = Inr (url0 # url_rest)"
    and fn: "file_name = destination @ ''/'' @ basename url0"
    and tmp: "tmp = file_name @ ''.partial''"
    and absent: "\<not> path_exists w file_name"
  shows "download_mfile en destination priorities block_size mf w =
     (case open_loop en (Range (resume_offset w tmp) None) (url0 # url_rest) (Str '''') '''' [] w of
        Inl e \<Rightarrow> Inl e
      | Inr (res, endpoint, endpoints, w1) \<Rightarrow>
          if res = Str ''error'' then Inr (2, w1)
          else
            (case transfer en res endpoint (last (url0 # url_rest)) block_size
                    (resume_offset w tmp) tmp w1 of
               Inl e \<Rightarrow> Inl e
             | Inr w2 \<Rightarrow> finalize en tmp file_name (mf_md5 mf) w2))"
  using sel absent unfolding tmp fn
  by (simp add: download_mfile_def Let_def del: open_loop.simps last.simps
        split: sum.splits prod.splits)

lemma download_mfile_cases:
  assumes sel: "get_prioritized_endpoint (on_ec2 en) (mf_urls mf) priorities = Inr (url0 # url_rest)"
    and fn: "file_name = destination @ ''/'' @ basename url0"
    and tmp: "tmp = file_name @ ''.partial''"
    and r: "download_mfile en destination priorities block_size mf w = Inr (code, w')"
  shows "(code = 0 \<and> w' = w \<and> path_exists w file_name)
       \<or> (code = 2 \<and> files w' = files w \<and> \<not> path_exists w file_name)
       \<or> (\<exists>d. code = 0 \<and> \<not> path_exists w file_name
              \<and> md5_hexdigest en (content_of w tmp @ d) = mf_md5 mf
              \<and> files w' = (files w)(file_name \<mapsto> content_of w tmp @ d, tmp := None))
       \<or> (\<exists>d. code = 3 \<and> \<not> path_exists w file_name
              \<and> md5_hexdigest en (content_of w tmp @ d) \<noteq> mf_md5 mf
              \<and> files w' = (files w)(tmp \<mapsto> content_of w tmp @ d))"
proof (cases "path_exists w file_name")
  case True
  with sel r show ?thesis
    unfolding fn by (auto simp: download_mfile_def Let_def)
next
  case absent: False
  then have nofile: "files w file_name = None"
    by (simp add: path_exists_def)
  note u = download_mfile_unfold [OF sel fn tmp absent, of block_size]
  show ?thesis
  proof (cases "open_loop en (Range (resume_offset w tmp) None) (url0 # url_rest) (Str '''') '''' [] w")
    case (Inl e)
    with u r show ?thesis by simp
  next
    case (Inr x)
    then obtain res endpoint endpoints w1 where
      opened: "open_loop en (Range (resume_offset w tmp) None) (url0 # url_rest) (Str '''') '''' [] w
               = Inr (res, endpoint, endpoints, w1)"
      by (cases x) auto
    have w1: "files w1 = files w" using open_loop_files [OF opened] .
    show ?thesis
    proof (cases "res = Str ''error''")
      case True
      with u r opened have "code = 2 \<and> w' = w1" by simp
      with w1 absent show ?thesis by simp
    next
      case False
      with u r opened obtain w2 where
        tr: "transfer en res endpoint (last (url0 # url_rest)) block_size (resume_offset w tmp) tmp w1
             = Inr w2"
        and fin: "finalize en tmp file_name (mf_md5 mf) w2 = Inr (code, w')"
        by (auto split: sum.splits)
      have "content_of w1 tmp = content_of w tmp"
        by (simp add: content_of_def w1)
      with transfer_files [OF tr] w1 obtain d where
        c: "files w2 = (files w)(tmp \<mapsto> content_of w tmp @ d)" by auto
      then have t: "files w2 tmp = Some (content_of w tmp @ d)" by simp
      have ne: "tmp \<noteq> file_name" by (simp add: tmp)
      show ?thesis
      proof (cases "md5_hexdigest en (content_of w tmp @ d) = mf_md5 mf")
        case True
        with fin finalize_result [OF t, of en file_name "mf_md5 mf"] c ne nofile
        have "code = 0
            \<and> files w' = (files w)(file_name \<mapsto> content_of w tmp @ d, tmp := None)"
          by (auto simp: fun_eq_iff)
        with absent True show ?thesis by blast
      next
        case False
        with fin finalize_result [OF t, of en file_name "mf_md5 mf"] c
        have "code = 3 \<and> files w' = (files w)(tmp \<mapsto> content_of w tmp @ d)"
          by auto
        with absent False show ?thesis by blast
      qed
    qed
  qed
qed

section \<open>Evaluation of the example runs\<close>

lemmas eval_defs =
  http_site_def empty_world_def get_url_obj_def endpoint_of_def split_char_def upper_def
  upper_char_def log_call_def resume_offset_def transfer_def open_append_def open_ab_def
  path_exists_def getsize_def
  get_file_size_def content_of_def get_buffer_def file_write_def basename_def
  startswith_def get_prioritized_endpoint_def effective_priorities_def lower_def
  lower_char_def demo_rewrite_def returned_def files_after_def calls_after_def
  download_manifest_def Let_def

lemma demo_select:
  "get_prioritized_endpoint (on_ec2 demo_site) (mf_urls (demo_mfile md5)) ''http''
     = Inr [''http://a/x.bin'']"
  by (simp add: eval_defs demo_site_def demo_mfile_def)

lemma demo_open:
  "k < 11 \<Longrightarrow> open_loop demo_site (Range k None) [''http://a/x.bin''] (Str '''') '''' [] w
     = Inr (HTTPResponse (drop k ''hello world''), ''HTTP'', [''HTTP''], demo_opened k w)"
  by (simp add: eval_defs demo_site_def demo_opened_def)

lemma demo_transfer_0:
  "transfer demo_site (HTTPResponse ''hello world'') ''HTTP'' ''http://a/x.bin'' 8 0
        ''dest/x.bin.partial'' (demo_opened 0 empty_world)
     = Inr (log_call (ResponseRead 8)
             (file_write ''dest/x.bin.partial'' ''rld''
               (log_call (ResponseRead 8)
                 (file_write ''dest/x.bin.partial'' ''hello wo''
                   (log_call (ResponseRead 8)
                     (log_call (Urlopen ''http://a/x.bin'' None)
                       (open_append ''dest/x.bin.partial'' (demo_opened 0 empty_world))))))))"
  by (simp add: eval_defs demo_site_def demo_opened_def transfer_loop.simps)

text \<open>
  A first candidate that ends with a slash makes the destination path the destination
  directory itself, which exists: the entry gets the code 0 with no call made and no
  file written, although the URL is served.
\<close>

lemma trailing_slash_candidate_is_skipped:
  "returned (download_manifest (http_site [(''http://a/'', ''index'')])
      [\<lparr>mf_id = ''F1'', mf_urls = ''http://a/'', mf_md5 = ''index''\<rparr>]
      ''dest'' ''http'' 8 empty_world) = Inr [0]
   \<and> calls_after (download_manifest (http_site [(''http://a/'', ''index'')])
      [\<lparr>mf_id = ''F1'', mf_urls = ''http://a/'', mf_md5 = ''index''\<rparr>]
      ''dest'' ''http'' 8 empty_world) = []
   \<and> files_after (download_manifest (http_site [(''http://a/'', ''index'')])
      [\<lparr>mf_id = ''F1'', mf_urls = ''http://a/'', mf_md5 = ''index''\<rparr>]
      ''dest'' ''http'' 8 empty_world) ''dest/'' = None"
  by code_simp

section \<open>The batch: properties\<close>

text \<open>
  C1: the claim holds of the list when download_manifest returns
  (\<open>download_manifest_codes\<close>), but the function does raise on a per-entry failure:
  an entry whose candidate is a FASP URL reaches the call \<open>get_fasp_obj(url)\<close>, which
  passes one argument to a function of four, and the TypeError leaves download_manifest
  with no list returned.
\<close>

theorem download_manifest_raises_on_fasp:
  "returned (download_manifest (http_site [])
      [\<lparr>mf_id = ''F1'', mf_urls = ''fasp://server/x.bin'', mf_md5 = ''0123''\<rparr>]
      ''dest'' ''fasp'' 8 empty_world) = Inl TypeError"
  by code_simp

text \<open>
  C2: the loop over the candidates has no \<open>break\<close>, so the open of the last
  candidate decides. Here the first candidate opens and the second does not, and the
  entry's code is 2 though not every candidate failed; the two opens are the only calls
  made.
\<close>

theorem last_candidate_decides:
  "urlopen (http_site [(''http://a/x.bin'', ''hello world'')]) ''http://a/x.bin''
       (Some (Range 0 None)) = Some ''hello world''
   \<and> returned (download_manifest (http_site [(''http://a/x.bin'', ''hello world'')])
      [\<lparr>mf_id = ''F1'', mf_urls = ''http://a/x.bin,http://b/x.bin'', mf_md5 = ''hello world''\<rparr>]
      ''dest'' ''http'' 8 empty_world) = Inr [2]
   \<and> calls_after (download_manifest (http_site [(''http://a/x.bin'', ''hello world'')])
      [\<lparr>mf_id = ''F1'', mf_urls = ''http://a/x.bin,http://b/x.bin'', mf_md5 = ''hello world''\<rparr>]
      ''dest'' ''http'' 8 empty_world)
     = [Urlopen ''http://a/x.bin'' (Some (Range 0 None)),
        Urlopen ''http://b/x.bin'' (Some (Range 0 None))]"
  by code_simp

text \<open>
  C6: an entry whose destination path exists (a regular file, or a directory, as
  \<open>os.path.exists\<close> has it) gets the code 0, and the world after it is the world before
  it: no call to a transport, no write.
\<close>

theorem existing_destination_is_skipped:
  "get_prioritized_endpoint (on_ec2 en) (mf_urls mf) priorities = Inr (url0 # url_rest) \<Longrightarrow>
   path_exists w (destination @ ''/'' @ basename url0) \<Longrightarrow>
     download_mfile en destination priorities block_size mf w = Inr (0, w)"
  by (auto simp: download_mfile_def Let_def)

theorem existing_destination_is_skipped_witness:
  "get_prioritized_endpoint (on_ec2 (http_site [])) ''http://a/x.bin'' ''http'' = Inr [''http://a/x.bin'']
   \<and> path_exists (empty_world\<lparr>files := [''dest/x.bin'' \<mapsto> ''old'']\<rparr>)
         (''dest'' @ ''/'' @ basename ''http://a/x.bin'')
   \<and> download_mfile (http_site []) ''dest'' ''http'' 8
        \<lparr>mf_id = ''F1'', mf_urls = ''http://a/x.bin'', mf_md5 = ''0123''\<rparr>
        (empty_world\<lparr>files := [''dest/x.bin'' \<mapsto> ''old'']\<rparr>)
      = Inr (0, empty_world\<lparr>files := [''dest/x.bin'' \<mapsto> ''old'']\<rparr>)
   \<and> get_prioritized_endpoint (on_ec2 (http_site [])) ''http://a/'' ''http'' = Inr [''http://a/'']
   \<and> path_exists empty_world (''dest'' @ ''/'' @ basename ''http://a/'')
   \<and> download_mfile (http_site []) ''dest'' ''http'' 8
        \<lparr>mf_id = ''F2'', mf_urls = ''http://a/'', mf_md5 = ''0123''\<rparr> empty_world
      = Inr (0, empty_world)"
proof -
  have sel: "get_prioritized_endpoint (on_ec2 (http_site []))
      (mf_urls \<lparr>mf_id = ''F1'', mf_urls = ''http://a/x.bin'', mf_md5 = ''0123''\<rparr>) ''http''
      = Inr [''http://a/x.bin'']"
    by (simp add: eval_defs)
  have ex: "path_exists (empty_world\<lparr>files := [''dest/x.bin'' \<mapsto> ''old'']\<rparr>)
      (''dest'' @ ''/'' @ basename ''http://a/x.bin'')"
    by (simp add: eval_defs)
  have sel2: "get_prioritized_endpoint (on_ec2 (http_site []))
      (mf_urls \<lparr>mf_id = ''F2'', mf_urls = ''http://a/'', mf_md5 = ''0123''\<rparr>) ''http''
      = Inr [''http://a/'']"
    by (simp add: eval_defs)
  have ex2: "path_exists empty_world (''dest'' @ ''/'' @ basename ''http://a/'')"
    by (simp add: eval_defs)
  from existing_destination_is_skipped [OF sel ex, of 8]
    existing_destination_is_skipped [OF sel2 ex2, of 8] sel ex sel2 ex2 show ?thesis
    by simp
qed

text \<open>
  C7, as the specification states it, fails: with the priority \<open>http\<close>, the entry
  whose only URL is \<open>https://h/x.bin\<close> has no scheme of the priority list, and its
  code is 2, not 1.
\<close>

theorem other_scheme_gives_code_2:
  "\<not> scheme_in_priorities ''https://h/x.bin'' (effective_priorities False ''http'')
   \<and> returned (download_manifest (http_site [(''https://h/x.bin'', ''hello world'')])
      [\<lparr>mf_id = ''F1'', mf_urls = ''https://h/x.bin'', mf_md5 = ''hello world''\<rparr>]
      ''dest'' ''http'' 8 empty_world) = Inr [2]"
  by code_simp

text \<open>
  C7, amended: an entry none of whose URLs starts with a priority token in effect, in
  lower case, gets the code 1, and the world after it is the world before it.
\<close>

theorem no_matching_prefix_is_code_1:
  "selected (effective_priorities (on_ec2 en) priorities) (split_char CHR '','' (mf_urls mf)) = []
     \<Longrightarrow> download_mfile en destination priorities block_size mf w = Inr (1, w)"
  by (simp add: download_mfile_def get_prioritized_endpoint_none)

theorem no_matching_prefix_is_code_1_witness:
  "selected (effective_priorities False ''http'') (split_char CHR '','' ''ftp://b/x.bin'') = []
   \<and> download_mfile (http_site []) ''dest'' ''http'' 8
        \<lparr>mf_id = ''F1'', mf_urls = ''ftp://b/x.bin'', mf_md5 = ''0123''\<rparr> empty_world
      = Inr (1, empty_world)"
proof -
  have s: "selected (effective_priorities (on_ec2 (http_site [])) ''http'')
      (split_char CHR '','' (mf_urls \<lparr>mf_id = ''F1'', mf_urls = ''ftp://b/x.bin'', mf_md5 = ''0123''\<rparr>)) = []"
    by (simp add: eval_defs selected_def)
  from no_matching_prefix_is_code_1 [OF s, of "''dest''" 8 empty_world] s show ?thesis
    by (simp add: http_site_def)
qed

text \<open>
  C4: after a transfer that completed (the destination path did not exist, an open
  succeeded and the transfer returned), the partial file is on disk and the destination
  is not; when the digest of the partial file is the expected digest the partial file is
  moved to the destination and the code is 0; otherwise the code is 3 and the world is
  left as the transfer left it, with the partial file and without the destination.
\<close>

theorem checksum_decides_outcome:
  assumes sel: "get_prioritized_endpoint (on_ec2 en) (mf_urls mf) priorities = Inr (url0 # url_rest)"
    and fn: "file_name = destination @ ''/'' @ basename url0"
    and tmp: "tmp = file_name @ ''.partial''"
    and absent: "\<not> path_exists w file_name"
    and opened: "open_loop en (Range (resume_offset w tmp) None) (url0 # url_rest) (Str '''') '''' [] w
                   = Inr (res, endpoint, endpoints, w1)"
    and ok: "res \<noteq> Str ''error''"
    and transferred: "transfer en res endpoint (last (url0 # url_rest)) block_size
                        (resume_offset w tmp) tmp w1 = Inr w2"
  shows "files w2 tmp \<noteq> None \<and> files w2 file_name = None
       \<and> download_mfile en destination priorities block_size mf w =
           (if md5_hexdigest en (content_of w2 tmp) = mf_md5 mf
            then Inr (0, log_call (Move tmp file_name)
                           (w2\<lparr>files := (files w2)(file_name \<mapsto> content_of w2 tmp, tmp := None)\<rparr>))
            else Inr (3, w2))"
proof -
  from transfer_files [OF transferred] obtain d where
    d: "files w2 = (files w1)(tmp \<mapsto> content_of w1 tmp @ d)" by blast
  have w1: "files w1 = files w" using open_loop_files [OF opened] .
  have ne: "tmp \<noteq> file_name" using tmp by simp
  from d have t: "files w2 tmp = Some (content_of w2 tmp)"
    by (simp add: content_of_def)
  from d w1 ne absent have a: "files w2 file_name = None"
    by (simp add: path_exists_def)
  have "download_mfile en destination priorities block_size mf w
          = finalize en tmp file_name (mf_md5 mf) w2"
    using sel absent opened ok transferred unfolding fn tmp
    by (simp add: download_mfile_def Let_def del: open_loop.simps last.simps)
  with finalize_result [OF t] t a show ?thesis
    by simp
qed

theorem checksum_decides_outcome_witness:
  "returned (download_mfile demo_site ''dest'' ''http'' 8 (demo_mfile ''hello world'') empty_world)
     = Inr 0
   \<and> files_after (download_mfile demo_site ''dest'' ''http'' 8 (demo_mfile ''hello world'')
        empty_world) ''dest/x.bin'' = Some ''hello world''
   \<and> files_after (download_mfile demo_site ''dest'' ''http'' 8 (demo_mfile ''hello world'')
        empty_world) ''dest/x.bin.partial'' = None
   \<and> returned (download_mfile demo_site ''dest'' ''http'' 8 (demo_mfile ''0123'') empty_world)
     = Inr 3
   \<and> files_after (download_mfile demo_site ''dest'' ''http'' 8 (demo_mfile ''0123'')
        empty_world) ''dest/x.bin.partial'' = Some ''hello world''
   \<and> files_after (download_mfile demo_site ''dest'' ''http'' 8 (demo_mfile ''0123'')
        empty_world) ''dest/x.bin'' = None"
proof -
  define file_name where "file_name = ''dest'' @ ''/'' @ basename ''http://a/x.bin''"
  define tmp where "tmp = file_name @ ''.partial''"
  define w2 where "w2 =
    log_call (ResponseRead 8)
      (file_write ''dest/x.bin.partial'' ''rld''
        (log_call (ResponseRead 8)
          (file_write ''dest/x.bin.partial'' ''hello wo''
            (log_call (ResponseRead 8)
              (log_call (Urlopen ''http://a/x.bin'' None)
                (open_append ''dest/x.bin.partial'' (demo_opened 0 empty_world)))))))"
  have fn: "file_name = ''dest/x.bin''"
    by (simp add: file_name_def basename_def split_char_def startswith_def)
  have tmp': "tmp = ''dest/x.bin.partial''"
    by (simp add: tmp_def fn)
  have k: "resume_offset empty_world tmp = 0"
    by (simp add: tmp' resume_offset_def path_exists_def empty_world_def)
  have absent: "\<not> path_exists empty_world file_name"
    by (simp add: fn path_exists_def empty_world_def)
  have opened: "open_loop demo_site (Range (resume_offset empty_world tmp) None)
      [''http://a/x.bin''] (Str '''') '''' [] empty_world
      = Inr (HTTPResponse ''hello world'', ''HTTP'', [''HTTP''], demo_opened 0 empty_world)"
    using demo_open [of 0 empty_world] by (simp add: k)
  have ok: "HTTPResponse ''hello world'' \<noteq> Str ''error''"
    by simp
  have transferred: "transfer demo_site (HTTPResponse ''hello world'') ''HTTP''
      (last [''http://a/x.bin'']) 8 (resume_offset empty_world tmp) tmp (demo_opened 0 empty_world)
      = Inr w2"
    using demo_transfer_0 by (simp add: tmp' w2_def k [unfolded tmp'])
  have c: "content_of w2 tmp = ''hello world''" "files w2 ''dest/x.bin'' = None"
    "files w2 ''dest/x.bin.partial'' = Some ''hello world''"
    by (simp_all add: w2_def tmp' content_of_def file_write_def open_append_def log_call_def
          demo_opened_def empty_world_def)
  have d: "md5_hexdigest demo_site ''hello world'' = ''hello world''"
    by (simp add: demo_site_def http_site_def)
  note t = checksum_decides_outcome [OF demo_select file_name_def tmp_def absent opened ok
      transferred]
  from t [of "''hello world''"] t [of "''0123''"] c d show ?thesis
    by (simp add: returned_def files_after_def demo_mfile_def fn tmp')
qed

text \<open>
  C9, as the specification states it, fails: the candidates are \<open>http://a/x.bin\<close> and
  \<open>http://b/y.bin\<close>, the open of the first fails and the transfer uses the second (the
  size request and the content \<open>second\<close> are its), and the completed file is
  \<open>dest/x.bin\<close>, named after the first; there is no \<open>dest/y.bin\<close>.
\<close>

theorem file_named_after_first_candidate:
  "urlopen (http_site [(''http://b/y.bin'', ''second'')]) ''http://a/x.bin''
       (Some (Range 0 None)) = None
   \<and> returned (download_manifest (http_site [(''http://b/y.bin'', ''second'')])
      [\<lparr>mf_id = ''F1'', mf_urls = ''http://a/x.bin,http://b/y.bin'', mf_md5 = ''second''\<rparr>]
      ''dest'' ''http'' 8 empty_world) = Inr [0]
   \<and> files_after (download_manifest (http_site [(''http://b/y.bin'', ''second'')])
      [\<lparr>mf_id = ''F1'', mf_urls = ''http://a/x.bin,http://b/y.bin'', mf_md5 = ''second''\<rparr>]
      ''dest'' ''http'' 8 empty_world) ''dest/x.bin'' = Some ''second''
   \<and> files_after (download_manifest (http_site [(''http://b/y.bin'', ''second'')])
      [\<lparr>mf_id = ''F1'', mf_urls = ''http://a/x.bin,http://b/y.bin'', mf_md5 = ''second''\<rparr>]
      ''dest'' ''http'' 8 empty_world) (''dest/'' @ basename ''http://b/y.bin'') = None
   \<and> calls_after (download_manifest (http_site [(''http://b/y.bin'', ''second'')])
      [\<lparr>mf_id = ''F1'', mf_urls = ''http://a/x.bin,http://b/y.bin'', mf_md5 = ''second''\<rparr>]
      ''dest'' ''http'' 8 empty_world)
     = [Urlopen ''http://a/x.bin'' (Some (Range 0 None)),
        Urlopen ''http://b/y.bin'' (Some (Range 0 None)),
        OpenAppend ''dest/x.bin.partial'', Urlopen ''http://b/y.bin'' None,
        ResponseRead 8, FileWrite ''dest/x.bin.partial'' ''second'', ResponseRead 8,
        Move ''dest/x.bin.partial'' ''dest/x.bin'']"
  by code_simp

text \<open>
  C9, amended: the destination path of an entry is the destination directory joined
  with the last path segment of the first candidate of the prioritised list, whichever
  candidate the transfer uses. For an entry that ends with the code 0: when that path
  existed before (a file, or a directory, as for a first candidate that ends with a
  slash) the world is unchanged; when it did not, it holds afterwards the bytes
  assembled at the same path with the suffix \<open>.partial\<close> (the former content of the
  partial file followed by what was transferred), their digest is the expected one, and
  the partial path is gone. An entry that ends with the code 3 leaves the assembled
  bytes at the partial path, with another digest, and nothing at the destination path;
  one that ends with the code 2 changes no file; and no entry changes another path.
\<close>

theorem destination_named_after_first_candidate:
  assumes sel: "get_prioritized_endpoint (on_ec2 en) (mf_urls mf) priorities = Inr (url0 # url_rest)"
    and fn: "file_name = destination @ ''/'' @ basename url0"
    and tmp: "tmp = file_name @ ''.partial''"
    and r: "returned (download_mfile en destination priorities block_size mf w) = Inr code"
  shows "(code = 0 \<and> path_exists w file_name \<longrightarrow>
            download_mfile en destination priorities block_size mf w = Inr (0, w))
       \<and> (code = 0 \<and> \<not> path_exists w file_name \<longrightarrow>
            (\<exists>d. files_after (download_mfile en destination priorities block_size mf w) file_name
                   = Some (content_of w tmp @ d)
                 \<and> md5_hexdigest en (content_of w tmp @ d) = mf_md5 mf)
            \<and> files_after (download_mfile en destination priorities block_size mf w) tmp = None)
       \<and> (code = 3 \<longrightarrow>
            (\<exists>d. files_after (download_mfile en destination priorities block_size mf w) tmp
                   = Some (content_of w tmp @ d)
                 \<and> md5_hexdigest en (content_of w tmp @ d) \<noteq> mf_md5 mf)
            \<and> files_after (download_mfile en destination priorities block_size mf w) file_name
                = None)
       \<and> (code = 2 \<or> (p \<noteq> file_name \<and> p \<noteq> tmp) \<longrightarrow>
            files_after (download_mfile en destination priorities block_size mf w) p = files w p)"
proof -
  from r obtain w' where
    r': "download_mfile en destination priorities block_size mf w = Inr (code, w')"
    by (auto simp: returned_def split: sum.splits)
  have ne: "tmp \<noteq> file_name" by (simp add: tmp)
  from download_mfile_cases [OF sel fn tmp r']
  consider (skip) "code = 0" "w' = w" "path_exists w file_name"
    | (unreachable) "code = 2" "files w' = files w" "\<not> path_exists w file_name"
    | (moved) d where "code = 0" "\<not> path_exists w file_name"
        "md5_hexdigest en (content_of w tmp @ d) = mf_md5 mf"
        "files w' = (files w)(file_name \<mapsto> content_of w tmp @ d, tmp := None)"
    | (mismatch) d where "code = 3" "\<not> path_exists w file_name"
        "md5_hexdigest en (content_of w tmp @ d) \<noteq> mf_md5 mf"
        "files w' = (files w)(tmp \<mapsto> content_of w tmp @ d)"
    by blast
  then show ?thesis
  proof cases
    case skip
    then show ?thesis by (simp add: files_after_def r')
  next
    case unreachable
    then show ?thesis by (simp add: files_after_def r')
  next
    case moved
    with ne show ?thesis by (auto simp: files_after_def r')
  next
    case mismatch
    with ne show ?thesis by (auto simp: files_after_def r' path_exists_def)
  qed
qed

theorem destination_named_after_first_candidate_witness:
  "returned (download_mfile (http_site [(''http://b/y.bin'', ''second'')]) ''dest'' ''http'' 8
      \<lparr>mf_id = ''F1'', mf_urls = ''http://a/x.bin,http://b/y.bin'', mf_md5 = ''second''\<rparr>
      empty_world) = Inr 0
   \<and> \<not> path_exists empty_world (''dest'' @ ''/'' @ basename ''http://a/x.bin'')
   \<and> files_after (download_mfile (http_site [(''http://b/y.bin'', ''second'')]) ''dest'' ''http'' 8
      \<lparr>mf_id = ''F1'', mf_urls = ''http://a/x.bin,http://b/y.bin'', mf_md5 = ''second''\<rparr>
      empty_world) ''dest/x.bin'' = Some ''second''
   \<and> files_after (download_mfile (http_site [(''http://b/y.bin'', ''second'')]) ''dest'' ''http'' 8
      \<lparr>mf_id = ''F1'', mf_urls = ''http://a/x.bin,http://b/y.bin'', mf_md5 = ''second''\<rparr>
      empty_world) ''dest/x.bin.partial'' = None
   \<and> files_after (download_mfile (http_site [(''http://b/y.bin'', ''second'')]) ''dest'' ''http'' 8
      \<lparr>mf_id = ''F1'', mf_urls = ''http://a/x.bin,http://b/y.bin'', mf_md5 = ''second''\<rparr>
      empty_world) ''dest/y.bin'' = None
   \<and> returned (download_mfile (http_site [(''http://b/y.bin'', ''second'')]) ''dest'' ''http'' 8
      \<lparr>mf_id = ''F2'', mf_urls = ''http://b/'', mf_md5 = ''second''\<rparr> empty_world) = Inr 0
   \<and> path_exists empty_world (''dest'' @ ''/'' @ basename ''http://b/'')
   \<and> download_mfile (http_site [(''http://b/y.bin'', ''second'')]) ''dest'' ''http'' 8
      \<lparr>mf_id = ''F2'', mf_urls = ''http://b/'', mf_md5 = ''second''\<rparr> empty_world
      = Inr (0, empty_world)"
proof -
  let ?en = "http_site [(''http://b/y.bin'', ''second'')]"
  let ?mf = "\<lparr>mf_id = ''F1'', mf_urls = ''http://a/x.bin,http://b/y.bin'', mf_md5 = ''second''\<rparr>"
  let ?mf2 = "\<lparr>mf_id = ''F2'', mf_urls = ''http://b/'', mf_md5 = ''second''\<rparr>"
  have sel: "get_prioritized_endpoint (on_ec2 ?en) (mf_urls ?mf) ''http''
      = Inr [''http://a/x.bin'', ''http://b/y.bin'']"
    by code_simp
  have r: "returned (download_mfile ?en ''dest'' ''http'' 8 ?mf empty_world) = Inr 0"
    by code_simp
  have absent: "\<not> path_exists empty_world (''dest'' @ ''/'' @ basename ''http://a/x.bin'')"
    by (simp add: eval_defs)
  have fs: "files_after (download_mfile ?en ''dest'' ''http'' 8 ?mf empty_world) ''dest/x.bin''
      = Some ''second''"
    by code_simp
  have ne: "''dest/y.bin'' \<noteq> ''dest'' @ ''/'' @ basename ''http://a/x.bin''
      \<and> ''dest/y.bin'' \<noteq> (''dest'' @ ''/'' @ basename ''http://a/x.bin'') @ ''.partial''"
    by code_simp
  have nm: "(''dest'' @ ''/'' @ basename ''http://a/x.bin'') @ ''.partial'' = ''dest/x.bin.partial''"
    by code_simp
  have e: "files empty_world ''dest/y.bin'' = None"
    by (simp add: empty_world_def)
  have sel2: "get_prioritized_endpoint (on_ec2 ?en) (mf_urls ?mf2) ''http'' = Inr [''http://b/'']"
    by code_simp
  have r2: "returned (download_mfile ?en ''dest'' ''http'' 8 ?mf2 empty_world) = Inr 0"
    by code_simp
  have present: "path_exists empty_world (''dest'' @ ''/'' @ basename ''http://b/'')"
    by (simp add: eval_defs)
  from destination_named_after_first_candidate [OF sel refl refl r, of "''dest/y.bin''"]
    destination_named_after_first_candidate [OF sel2 refl refl r2, of "''dest/y.bin''"]
    r absent fs ne nm e r2 present
  show ?thesis by simp
qed

section \<open>Resuming a transfer\<close>

lemma open_loop_snoc:
  "open_loop en hdr (us @ [url]) res ep eps w =
     (case open_loop en hdr us res ep eps w of
        Inl e \<Rightarrow> Inl e
      | Inr (res', ep', eps', w') \<Rightarrow> open_loop en hdr [url] res' ep' eps' w')"
  by (induction us arbitrary: res ep eps w) (auto simp: Let_def split: sum.splits)

lemma open_loop_last:
  assumes "open_loop en hdr (url0 # url_rest) res ep eps w = Inr (res', ep', eps', w1)"
  shows "\<exists>w'. files w' = files w \<and> ep' = endpoint_of (last (url0 # url_rest))
           \<and> get_url_obj en (last (url0 # url_rest)) ep' hdr w' = Inr (res', w1)"
proof -
  have l: "url0 # url_rest = butlast (url0 # url_rest) @ [last (url0 # url_rest)]"
    by (rule append_butlast_last_id [symmetric]) simp
  from assms obtain r0 e0 es0 w0 where
    a: "open_loop en hdr (butlast (url0 # url_rest)) res ep eps w = Inr (r0, e0, es0, w0)"
    and b: "open_loop en hdr [last (url0 # url_rest)] r0 e0 es0 w0 = Inr (res', ep', eps', w1)"
    by (subst (asm) l, subst (asm) open_loop_snoc) (auto split: sum.splits)
  from b have "ep' = endpoint_of (last (url0 # url_rest))
      \<and> get_url_obj en (last (url0 # url_rest)) ep' hdr w0 = Inr (res', w1)"
    by (auto simp: Let_def split: if_splits sum.splits simp del: last.simps)
  with open_loop_files [OF a] show ?thesis by blast
qed

lemma http_loop:
  "0 < block_size \<Longrightarrow> 0 < file_size \<or> body = [] \<Longrightarrow> files w f = Some c \<Longrightarrow>
     \<exists>w'. transfer_loop en (HTTPResponse body) ''HTTP'' block_size cb file_size f w = Inr w'
          \<and> files w' = (files w)(f \<mapsto> c @ body)"
proof (induction body arbitrary: cb w c rule: length_induct)
  case (1 body)
  show ?case
  proof (cases "body = []")
    case True
    with "1.prems" show ?thesis
      by (subst transfer_loop.simps) (auto simp: get_buffer_def)
  next
    case False
    let ?w1 = "log_call (ResponseRead block_size) w"
    let ?w2 = "file_write f (take block_size body) ?w1"
    from False "1.prems" have fs: "0 < file_size" and ne: "take block_size body \<noteq> []"
      by auto
    have shorter: "length (drop block_size body) < length body"
      using False "1.prems"(1) by simp
    have f2: "files ?w2 f = Some (c @ take block_size body)"
      using "1.prems"(3) by (simp add: file_write_def content_of_def)
    from "1.IH" [rule_format, OF shorter "1.prems"(1) _ f2, of "cb + length (take block_size body)"] fs
    obtain w' where
      r: "transfer_loop en (HTTPResponse (drop block_size body)) ''HTTP'' block_size
            (cb + length (take block_size body)) file_size f ?w2 = Inr w'"
      and f: "files w' = (files ?w2)(f \<mapsto> (c @ take block_size body) @ drop block_size body)"
      by blast
    have "transfer_loop en (HTTPResponse body) ''HTTP'' block_size cb file_size f w = Inr w'"
      using ne fs r by (subst transfer_loop.simps) (simp add: get_buffer_def Let_def)
    moreover from f have "files w' = (files w)(f \<mapsto> c @ body)"
      by (simp add: file_write_def)
    ultimately show ?thesis by blast
  qed
qed

lemma ftp_callback_ok:
  "0 < max_range \<or> pieces = [] \<Longrightarrow> \<exists>w'. ftp_callback f max_range pieces w = Inr w'"
  by (induction pieces arbitrary: w) (auto simp: Let_def)

lemma ftp_loop:
  assumes "ftp_retrbinary en host file_path block_size cb = Inr pieces"
    and "0 < file_size \<or> pieces = []"
    and "files w f = Some c"
  shows "\<exists>w'. transfer_loop en (FtpGetData host file_path) ''FTP'' block_size cb file_size f w = Inr w'
          \<and> files w' = (files w)(f \<mapsto> c @ concat pieces)"
proof -
  let ?w0 = "log_call (FtpRetrbinary host file_path block_size cb) w"
  from ftp_callback_ok [OF assms(2)] obtain w' where
    cbk: "ftp_callback f file_size pieces ?w0 = Inr w'" by blast
  have "files ?w0 f = Some c" using assms(3) by simp
  from ftp_callback_files [OF cbk this] have "files w' = (files w)(f \<mapsto> c @ concat pieces)"
    by simp
  moreover have "transfer_loop en (FtpGetData host file_path) ''FTP'' block_size cb file_size f w = Inr w'"
    using assms(1) cbk by (subst transfer_loop.simps) (simp add: get_buffer_def)
  ultimately show ?thesis by blast
qed

lemma take_drop_resume:
  "take n (drop a xs) @ drop (a + length (take n (drop a xs))) xs = drop a xs"
proof -
  have "drop (a + length (take n (drop a xs))) xs = drop n (drop a xs)"
    by (cases "n \<le> length xs - a") (simp_all add: min_def add.commute)
  moreover have "take n (drop a xs) @ drop n (drop a xs) = drop a xs"
    by (rule append_take_drop_id)
  ultimately show ?thesis by (simp only:)
qed

lemma s3_loop:
  assumes honest: "list_all
        (\<lambda>a. s3_get_contents en bucket key
               (Range a (if int a + int block_size - 1 \<le> int (length content)
                         then Some (int a + int block_size - 1) else None))
             = Inr (take block_size (drop a content)))
        [K..<length content]"
    and bs: "0 < block_size"
  shows "K \<le> cb \<Longrightarrow> files w f = Some c \<Longrightarrow>
     \<exists>w'. transfer_loop en (S3Key bucket key m) ''S3'' block_size cb (length content) f w = Inr w'
          \<and> files w' = (files w)(f \<mapsto> c @ drop cb content)"
proof (induction "length content - cb" arbitrary: cb w c rule: less_induct)
  case less
  show ?case
  proof (cases "length content \<le> cb")
    case True
    then have "transfer_loop en (S3Key bucket key m) ''S3'' block_size cb (length content) f w = Inr w"
      by (subst transfer_loop.simps) (simp add: get_buffer_def)
    moreover have "files w = (files w)(f \<mapsto> c @ drop cb content)"
      using True less.prems(2) by (simp add: fun_upd_idem)
    ultimately show ?thesis by blast
  next
    case False
    let ?hdr = "Range cb (if int cb + int block_size - 1 \<le> int (length content)
                         then Some (int cb + int block_size - 1) else None)"
    let ?buffer = "take block_size (drop cb content)"
    let ?w1 = "log_call (S3GetContents bucket key ?hdr) w"
    let ?w2 = "file_write f ?buffer ?w1"
    from False less.prems(1) have "cb \<in> set [K..<length content]" by simp
    with honest have rd: "s3_get_contents en bucket key ?hdr = Inr ?buffer"
      by (simp add: list_all_iff)
    from False bs have ne: "?buffer \<noteq> []" by simp
    from False have pos: "0 < length content" by auto
    have f2: "files ?w2 f = Some (c @ ?buffer)"
      using less.prems(2) by (simp add: file_write_def content_of_def)
    have dec: "length content - (cb + length ?buffer) < length content - cb"
      using False bs by (auto simp: min_def)
    have le: "K \<le> cb + length ?buffer" using less.prems(1) by simp
    from less.hyps [OF dec le f2] obtain w' where
      r: "transfer_loop en (S3Key bucket key m) ''S3'' block_size (cb + length ?buffer)
            (length content) f ?w2 = Inr w'"
      and f: "files w' = (files ?w2)(f \<mapsto> (c @ ?buffer) @ drop (cb + length ?buffer) content)"
      by blast
    have "transfer_loop en (S3Key bucket key m) ''S3'' block_size cb (length content) f w = Inr w'"
      using False rd ne pos r
      by (subst transfer_loop.simps) (simp add: get_buffer_def Let_def)
    moreover from f take_drop_resume [of block_size cb content]
    have "files w' = (files w)(f \<mapsto> c @ drop cb content)"
      by (simp add: file_write_def)
    ultimately show ?thesis by blast
  qed
qed

lemma get_ftp_connection_ok:
  "ftp_login en host \<Longrightarrow> \<exists>w'. get_ftp_connection en host w = Inr w' \<and> files w' = files w"
  by (simp add: get_ftp_connection_def)

lemma s3_get_key_ok:
  "s3_parse_url url = Inr (bucket, key) \<Longrightarrow> s3_get_bucket en bucket \<Longrightarrow>
   s3_key_size en bucket key = Some n \<Longrightarrow>
     \<exists>w'. s3_get_key en url w = Inr (Some (S3Key bucket key n), w') \<and> files w' = files w"
  by (simp add: s3_get_key_def Let_def)

lemma served_transfer:
  assumes sv: "served en url K block_size content" and bs: "0 < block_size"
    and op: "get_url_obj en url (endpoint_of url) (Range K None) w0 = Inr (res, w1)"
    and nd: "dirs w1 tmp = None"
  shows "res \<noteq> Str ''error''
       \<and> (\<exists>w2. transfer en res (endpoint_of url) url block_size K tmp w1 = Inr w2
              \<and> files w2 = (files w1)(tmp \<mapsto> content_of w1 tmp @ drop K content))"
proof -
  let ?wa = "open_append tmp w1"
  have fa: "files ?wa = (files w1)(tmp \<mapsto> content_of w1 tmp)"
    by (simp add: open_append_def)
  have oa: "open_ab tmp w1 = Inr ?wa"
    using nd by (simp add: open_ab_def)
  consider (http) "endpoint_of url = ''HTTP''" | (ftp) "endpoint_of url = ''FTP''"
    | (s3) "endpoint_of url = ''S3''"
    using sv by (auto simp: served_def split: if_splits)
  then show ?thesis
  proof cases
    case http
    with sv have o: "urlopen en url (Some (Range K None)) = Some (drop K content)"
      and s: "urlopen en url None \<noteq> None" and l: "content_length en url = Some (length content)"
      by (simp_all add: served_def)
    from op http o have res: "res = HTTPResponse (drop K content)"
      by (simp add: get_url_obj_def Let_def)
    let ?wb = "log_call (Urlopen url None) ?wa"
    from s l http have sz: "get_file_size en url (endpoint_of url) ?wa = Inr (Some (length content), ?wb)"
      by (auto simp: get_file_size_def)
    have "0 < length content \<or> drop K content = []" by auto
    from http_loop [OF bs this, of ?wb tmp "content_of w1 tmp" en K] fa
    obtain w2 where "transfer_loop en (HTTPResponse (drop K content)) ''HTTP'' block_size K
        (length content) tmp ?wb = Inr w2"
      and "files w2 = (files ?wb)(tmp \<mapsto> content_of w1 tmp @ drop K content)"
      by auto
    with sz res http fa show ?thesis
      by (simp add: transfer_def oa)
  next
    case ftp
    with sv have sv': "(case parse_ftp_url url of
           Inl e \<Rightarrow> False
         | Inr (dest, host, file_path) \<Rightarrow>
             ftp_login en host
             \<and> ftp_mlsd en host file_path = Inr True
             \<and> ftp_size en host file_path = Inr (Some (length content))
             \<and> (case ftp_retrbinary en host file_path block_size K of
                  Inl e \<Rightarrow> False
                | Inr pieces \<Rightarrow> [] \<notin> set pieces \<and> concat pieces = drop K content))"
      by (simp add: served_def)
    then obtain dest host file_path where
      p: "parse_ftp_url url = Inr (dest, host, file_path)"
      by (cases "parse_ftp_url url") auto
    with sv' have lg: "ftp_login en host" and ml: "ftp_mlsd en host file_path = Inr True"
      and fs: "ftp_size en host file_path = Inr (Some (length content))"
      and rt': "(case ftp_retrbinary en host file_path block_size K of
                  Inl e \<Rightarrow> False
                | Inr pieces \<Rightarrow> [] \<notin> set pieces \<and> concat pieces = drop K content)"
      by simp_all
    then obtain pieces where
      rt: "ftp_retrbinary en host file_path block_size K = Inr pieces"
      and pc: "[] \<notin> set pieces" "concat pieces = drop K content"
      by (cases "ftp_retrbinary en host file_path block_size K") auto
    from get_ftp_connection_ok [OF lg, of w0] obtain wc where
      "get_ftp_connection en host w0 = Inr wc" by blast
    with op ftp p ml have res: "res = FtpGetData host file_path"
      by (auto simp: get_url_obj_def Let_def)
    from get_ftp_connection_ok [OF lg, of ?wa] obtain wb where
      c: "get_ftp_connection en host ?wa = Inr wb" and fb: "files wb = files ?wa" by blast
    let ?wb = "log_call (FtpSize host file_path) wb"
    from ftp p c fs have sz: "get_file_size en url (endpoint_of url) ?wa = Inr (Some (length content), ?wb)"
      by (simp add: get_file_size_def)
    have "0 < length content \<or> pieces = []"
    proof (cases "length content = 0")
      case True
      with pc have "concat pieces = []" by simp
      with pc(1) have "pieces = []" by (cases pieces) auto
      then show ?thesis by simp
    qed simp
    from ftp_loop [OF rt this, of ?wb tmp "content_of w1 tmp"] fa fb pc
    obtain w2 where "transfer_loop en (FtpGetData host file_path) ''FTP'' block_size K
        (length content) tmp ?wb = Inr w2"
      and "files w2 = (files ?wb)(tmp \<mapsto> content_of w1 tmp @ drop K content)"
      by auto
    with sz res ftp fa fb show ?thesis
      by (simp add: transfer_def oa)
  next
    case s3
    with sv have sv': "(case s3_parse_url url of
           Inl e \<Rightarrow> False
         | Inr (bucket, key) \<Rightarrow>
             s3_get_bucket en bucket
             \<and> s3_key_size en bucket key = Some (length content)
             \<and> list_all
                  (\<lambda>a. s3_get_contents en bucket key
                         (Range a (if int a + int block_size - 1 \<le> int (length content)
                                   then Some (int a + int block_size - 1) else None))
                       = Inr (take block_size (drop a content)))
                  [K..<length content])"
      by (simp add: served_def)
    then obtain bucket key where
      p: "s3_parse_url url = Inr (bucket, key)"
      by (cases "s3_parse_url url") auto
    with sv' have bk: "s3_get_bucket en bucket"
      and ks: "s3_key_size en bucket key = Some (length content)"
      and honest: "list_all
        (\<lambda>a. s3_get_contents en bucket key
               (Range a (if int a + int block_size - 1 \<le> int (length content)
                         then Some (int a + int block_size - 1) else None))
             = Inr (take block_size (drop a content)))
        [K..<length content]"
      by simp_all
    from s3_get_key_ok [OF p bk ks, of w0] op s3
    have res: "res = S3Key bucket key (length content)"
      by (auto simp: get_url_obj_def)
    from s3_get_key_ok [OF p bk ks, of ?wa] obtain wb where
      g: "s3_get_key en url ?wa = Inr (Some (S3Key bucket key (length content)), wb)"
      and fb: "files wb = files ?wa" by blast
    from s3 g have sz: "get_file_size en url (endpoint_of url) ?wa = Inr (Some (length content), wb)"
      by (simp add: get_file_size_def)
    from s3_loop [OF honest bs le_refl, of wb tmp "content_of w1 tmp" "length content"] fa fb
    obtain w2 where "transfer_loop en (S3Key bucket key (length content)) ''S3'' block_size K
        (length content) tmp wb = Inr w2"
      and "files w2 = (files wb)(tmp \<mapsto> content_of w1 tmp @ drop K content)"
      by auto
    with sz res s3 fa fb show ?thesis
      by (simp add: transfer_def oa)
  qed
qed

lemma mirror_run:
  assumes sel: "get_prioritized_endpoint False url priorities = Inr [url]"
    and bn: "basename url = ''x.bin''"
  shows "get_prioritized_endpoint (on_ec2 (mirror_site ''hello world'')) (mf_urls (mirror_mfile url))
           priorities = Inr [url]"
    and "\<not> path_exists resumed_world (''dest'' @ ''/'' @ basename url)"
    and "dirs resumed_world ((''dest'' @ ''/'' @ basename url) @ ''.partial'') = None"
    and "3 = resume_offset resumed_world ((''dest'' @ ''/'' @ basename url) @ ''.partial'')"
    and "content_of resumed_world ((''dest'' @ ''/'' @ basename url) @ ''.partial'')
           = take 3 ''hello world''"
    and "md5_hexdigest (mirror_site ''hello world'') ''hello world''
           = mf_md5 (mirror_mfile url)"
  using sel by (simp_all add: bn mirror_site_def mirror_mfile_def resumed_world_def
        empty_world_def resume_offset_def content_of_def path_exists_def getsize_def)

text \<open>
  C5: for an entry whose destination path does not exist, with a partial file of \<open>K\<close>
  bytes (\<open>K = 0\<close> when there is none; the partial path is not a directory) that is
  the beginning of the remote content, no
  candidate's open raising, and the last candidate (the one the transfer uses) served
  honestly from offset \<open>K\<close> (over HTTP the request carries \<open>Range: bytes=K-\<close>), the
  bytes from offset \<open>K\<close> are appended to the partial file, so that the assembled file
  is the full content: it is the destination file when the digest matches (code 0) and
  the partial file otherwise (code 3).
\<close>

theorem resume_at_partial_size:
  assumes sel: "get_prioritized_endpoint (on_ec2 en) (mf_urls mf) priorities = Inr (url0 # url_rest)"
    and fn: "file_name = destination @ ''/'' @ basename url0"
    and tmp: "tmp = file_name @ ''.partial''"
    and absent: "\<not> path_exists w file_name"
    and notdir: "dirs w tmp = None"
    and K: "K = resume_offset w tmp"
    and url: "url = last (url0 # url_rest)"
    and opened: "\<not> isl (open_loop en (Range K None) (url0 # url_rest) (Str '''') '''' [] w)"
    and prefix: "content_of w tmp = take K content"
    and sv: "served en url K block_size content"
    and bs: "0 < block_size"
  shows "returned (download_mfile en destination priorities block_size mf w)
           = Inr (if md5_hexdigest en content = mf_md5 mf then 0 else 3)
       \<and> files_after (download_mfile en destination priorities block_size mf w) file_name
           = (if md5_hexdigest en content = mf_md5 mf then Some content else None)
       \<and> files_after (download_mfile en destination priorities block_size mf w) tmp
           = (if md5_hexdigest en content = mf_md5 mf then None else Some content)"
proof -
  from opened obtain res endpoint endpoints w1 where
    o: "open_loop en (Range K None) (url0 # url_rest) (Str '''') '''' [] w
          = Inr (res, endpoint, endpoints, w1)"
    by (cases "open_loop en (Range K None) (url0 # url_rest) (Str '''') '''' [] w") auto
  from open_loop_last [OF o] url obtain w0 where
    ep: "endpoint = endpoint_of url"
    and g: "get_url_obj en url (endpoint_of url) (Range K None) w0 = Inr (res, w1)"
    by auto
  have w1: "files w1 = files w" using open_loop_files [OF o] .
  have "dirs w1 tmp = None"
    using open_loop_dirs [OF o] notdir by simp
  from served_transfer [OF sv bs g this] obtain w2 where
    ok: "res \<noteq> Str ''error''"
    and tr: "transfer en res (endpoint_of url) url block_size K tmp w1 = Inr w2"
    and f2: "files w2 = (files w1)(tmp \<mapsto> content_of w1 tmp @ drop K content)"
    by blast
  have "content_of w1 tmp = content_of w tmp"
    by (simp add: content_of_def w1)
  with f2 prefix w1 have f2': "files w2 = (files w)(tmp \<mapsto> content)"
    by simp
  then have t: "files w2 tmp = Some content" by simp
  have ne: "tmp \<noteq> file_name" by (simp add: tmp)
  from download_mfile_unfold [OF sel fn tmp absent, of block_size] o tr ok
  have "download_mfile en destination priorities block_size mf w
          = finalize en tmp file_name (mf_md5 mf) w2"
    by (simp add: K [symmetric] ep url [symmetric] del: open_loop.simps last.simps)
  with finalize_result [OF t, of en file_name "mf_md5 mf"] f2' absent ne show ?thesis
    by (simp add: returned_def files_after_def path_exists_def)
qed

theorem resume_at_partial_size_witness:
  "served (mirror_site ''hello world'') ''http://a/x.bin'' 3 4 ''hello world''
   \<and> returned (download_mfile (mirror_site ''hello world'') ''dest'' ''http'' 4
        (mirror_mfile ''http://a/x.bin'') resumed_world) = Inr 0
   \<and> files_after (download_mfile (mirror_site ''hello world'') ''dest'' ''http'' 4
        (mirror_mfile ''http://a/x.bin'') resumed_world) ''dest/x.bin'' = Some ''hello world''
   \<and> served (mirror_site ''hello world'') ''ftp://host.org/pub/x.bin'' 3 4 ''hello world''
   \<and> returned (download_mfile (mirror_site ''hello world'') ''dest'' ''ftp'' 4
        (mirror_mfile ''ftp://host.org/pub/x.bin'') resumed_world) = Inr 0
   \<and> files_after (download_mfile (mirror_site ''hello world'') ''dest'' ''ftp'' 4
        (mirror_mfile ''ftp://host.org/pub/x.bin'') resumed_world) ''dest/x.bin''
        = Some ''hello world''
   \<and> served (mirror_site ''hello world'') ''s3://bucket/x.bin'' 3 4 ''hello world''
   \<and> returned (download_mfile (mirror_site ''hello world'') ''dest'' ''s3'' 4
        (mirror_mfile ''s3://bucket/x.bin'') resumed_world) = Inr 0
   \<and> files_after (download_mfile (mirror_site ''hello world'') ''dest'' ''s3'' 4
        (mirror_mfile ''s3://bucket/x.bin'') resumed_world) ''dest/x.bin'' = Some ''hello world''"
proof -
  let ?en = "mirror_site ''hello world''"
  have bs: "0 < (4::nat)" by simp
  have h1: "get_prioritized_endpoint False ''http://a/x.bin'' ''http'' = Inr [''http://a/x.bin'']"
    and h2: "basename ''http://a/x.bin'' = ''x.bin''"
    and h3: "\<not> isl (open_loop ?en (Range 3 None) [''http://a/x.bin''] (Str '''') '''' []
               resumed_world)"
    and h4: "served ?en ''http://a/x.bin'' 3 4 ''hello world''"
    by code_simp+
  have f1: "get_prioritized_endpoint False ''ftp://host.org/pub/x.bin'' ''ftp''
              = Inr [''ftp://host.org/pub/x.bin'']"
    and f2: "basename ''ftp://host.org/pub/x.bin'' = ''x.bin''"
    and f3: "\<not> isl (open_loop ?en (Range 3 None) [''ftp://host.org/pub/x.bin''] (Str '''') '''' []
               resumed_world)"
    and f4: "served ?en ''ftp://host.org/pub/x.bin'' 3 4 ''hello world''"
    by code_simp+
  have s1: "get_prioritized_endpoint False ''s3://bucket/x.bin'' ''s3'' = Inr [''s3://bucket/x.bin'']"
    and s2: "basename ''s3://bucket/x.bin'' = ''x.bin''"
    and s3: "\<not> isl (open_loop ?en (Range 3 None) [''s3://bucket/x.bin''] (Str '''') '''' []
               resumed_world)"
    and s4: "served ?en ''s3://bucket/x.bin'' 3 4 ''hello world''"
    by code_simp+
  note h = mirror_run [OF h1 h2]
  note f = mirror_run [OF f1 f2]
  note s = mirror_run [OF s1 s2]
  have l: "\<And>u. u = last [u::string]" by simp
  from resume_at_partial_size [OF h(1) refl refl h(2) h(3) h(4) l h3 h(5) h4 bs]
    resume_at_partial_size [OF f(1) refl refl f(2) f(3) f(4) l f3 f(5) f4 bs]
    resume_at_partial_size [OF s(1) refl refl s(2) s(3) s(4) l s3 s(5) s4 bs]
    h(6) f(6) s(6) h2 f2 s2 h4 f4 s4
  show ?thesis
    by simp
qed

end
